theory Spec2Isabelle
  imports Main "HOL-Library.AList" "HOL-Library.Char_ord" "HOL-Library.List_Lexorder"
begin

section \<open>Python strings\<close>

text \<open>
  A Python \<open>str\<close> is modelled as a \<^typ>\<open>string\<close>, a list of characters whose codes are
  the code points 0 to 255. The operations below are the \<open>str\<close> methods that
  \<^verbatim>\<open>monitor_crab_jobs.py\<close> calls, each restricted to the way the script calls it.
\<close>

definition nl :: string where
  "nl = [CHR 0x0A]"

text \<open>\<^verbatim>\<open>s.startswith(p)\<close>\<close>

definition startswith :: "string \<Rightarrow> string \<Rightarrow> bool" where
  "startswith s p = (take (length p) s = p)"

text \<open>\<^verbatim>\<open>sub in s\<close>\<close>

fun contains :: "string \<Rightarrow> string \<Rightarrow> bool" where
  "contains sub [] = (sub = [])"
| "contains sub (c # cs) = (startswith (c # cs) sub \<or> contains sub cs)"

text \<open>
  \<^verbatim>\<open>s.replace(old, new)\<close>: the occurrences of \<open>old\<close> are replaced from left to right,
  without overlap. The script only passes a non-empty \<open>old\<close>; for an empty one this
  function returns \<open>s\<close>.
\<close>

function str_replace :: "string \<Rightarrow> string \<Rightarrow> string \<Rightarrow> string" where
  "str_replace old new [] = []"
| "str_replace old new (c # cs) =
     (if old \<noteq> [] \<and> startswith (c # cs) old
      then new @ str_replace old new (drop (length old) (c # cs))
      else c # str_replace old new cs)"
  by pat_completeness auto
termination
  by (relation "measure (\<lambda>(old, new, s). length s)") auto

text \<open>\<^verbatim>\<open>s.strip(chars)\<close>\<close>

definition str_strip :: "string \<Rightarrow> string \<Rightarrow> string" where
  "str_strip s chars =
     rev (dropWhile (\<lambda>c. c \<in> set chars) (rev (dropWhile (\<lambda>c. c \<in> set chars) s)))"

text \<open>\<^verbatim>\<open>s.count(c)\<close> for a separator \<open>c\<close> of one character\<close>

definition str_count :: "string \<Rightarrow> char \<Rightarrow> nat" where
  "str_count s c = length (filter (\<lambda>x. x = c) s)"

text \<open>
  \<^verbatim>\<open>s.split(c)\<close> for a separator \<open>c\<close> of one character: the pieces between the
  separators, empty pieces included, so the result is never empty. The first argument
  of the auxiliary function is the piece read so far.
\<close>

fun split_sep_acc :: "char \<Rightarrow> string \<Rightarrow> string \<Rightarrow> string list" where
  "split_sep_acc sep cur [] = [cur]"
| "split_sep_acc sep cur (c # cs) =
     (if c = sep then cur # split_sep_acc sep [] cs
      else split_sep_acc sep (cur @ [c]) cs)"

definition str_split_sep :: "string \<Rightarrow> char \<Rightarrow> string list" where
  "str_split_sep s sep = split_sep_acc sep [] s"

text \<open>
  \<^verbatim>\<open>s.split()\<close>: the maximal runs of characters that are not whitespace. The
  whitespace characters below 256 are the code points 9 to 13, 28 to 32, 133 and 160.
\<close>

definition is_space :: "char \<Rightarrow> bool" where
  "is_space c =
     (let n = (of_char c :: nat)
      in (9 \<le> n \<and> n \<le> 13) \<or> (28 \<le> n \<and> n \<le> 32) \<or> n = 133 \<or> n = 160)"

fun split_ws_acc :: "string \<Rightarrow> string \<Rightarrow> string list" where
  "split_ws_acc cur [] = (if cur = [] then [] else [cur])"
| "split_ws_acc cur (c # cs) =
     (if is_space c then (if cur = [] then split_ws_acc [] cs else cur # split_ws_acc [] cs)
      else split_ws_acc (cur @ [c]) cs)"

definition str_split :: "string \<Rightarrow> string list" where
  "str_split s = split_ws_acc [] s"

text \<open>
  \<^verbatim>\<open>s.lower()\<close>: below 256 the upper-case letters are A to Z and the code points
  192 to 222 without 215; each is 32 below its lower-case letter.
\<close>

definition char_lower :: "char \<Rightarrow> char" where
  "char_lower c =
     (let n = (of_char c :: nat)
      in if (65 \<le> n \<and> n \<le> 90) \<or> (192 \<le> n \<and> n \<le> 222 \<and> n \<noteq> 215)
         then char_of (n + 32) else c)"

definition str_lower :: "string \<Rightarrow> string" where
  "str_lower s = map char_lower s"

text \<open>\<^verbatim>\<open>sep.join(xs)\<close>\<close>

fun str_join :: "string \<Rightarrow> string list \<Rightarrow> string" where
  "str_join sep [] = []"
| "str_join sep [x] = x"
| "str_join sep (x # y # ys) = x @ sep @ str_join sep (y # ys)"

section \<open>Errors and numbers\<close>

text \<open>
  The exceptions the script can raise. \<open>Irretrievable\<close> is the \<^verbatim>\<open>Exception\<close> of the
  guard in \<^verbatim>\<open>web\<close> (it carries the sample name of the message), \<open>NoSamples\<close> and
  \<open>MissingScript\<close> are the two \<^verbatim>\<open>Exception\<close>s raised before polling starts.
\<close>

datatype error =
    ValueError
  | IndexError
  | KeyError
  | Irretrievable string
  | NoSamples
  | MissingScript string

text \<open>
  Python's \<^verbatim>\<open>float\<close> is not part of the script. Its four uses are parameters of the
  model: \<^verbatim>\<open>float(s)\<close> on a string (\<open>None\<close> is the \<^verbatim>\<open>ValueError\<close>), the sum of two
  floats, the float that the integer literal \<^verbatim>\<open>0\<close> converts to in \<^verbatim>\<open>0 + val\<close>, and the
  text that \<^verbatim>\<open>'{}'.format(x)\<close> prints for a float.
\<close>

record 'f float_ops =
  float_of_str :: "string \<Rightarrow> 'f option"
  float_add :: "'f \<Rightarrow> 'f \<Rightarrow> 'f"
  float_zero :: "'f"
  float_repr :: "'f \<Rightarrow> string"

text \<open>
  The numbers the script holds are the integer literal \<^verbatim>\<open>0\<close> and floats.
\<close>

datatype 'f pynum = IntZero | Float 'f

text \<open>\<^verbatim>\<open>cumul + val\<close> for a number \<open>cumul\<close> and a float \<open>val\<close>\<close>

fun num_add :: "'f float_ops \<Rightarrow> 'f pynum \<Rightarrow> 'f \<Rightarrow> 'f pynum" where
  "num_add ops IntZero val = Float (float_add ops (float_zero ops) val)"
| "num_add ops (Float x) val = Float (float_add ops x val)"

text \<open>\<^verbatim>\<open>'{}'.format(n)\<close> for a number\<close>

fun num_format :: "'f float_ops \<Rightarrow> 'f pynum \<Rightarrow> string" where
  "num_format ops IntZero = ''0''"
| "num_format ops (Float x) = float_repr ops x"

text \<open>
  \<^verbatim>\<open>n == s\<close> for a number \<open>n\<close> and a \<open>str\<close> \<open>s\<close>: neither type compares itself with the
  other, so Python answers \<^verbatim>\<open>False\<close>.
\<close>

definition num_eq_str :: "'f pynum \<Rightarrow> string \<Rightarrow> bool" where
  "num_eq_str n s = False"

text \<open>\<^verbatim>\<open>float(v.strip('%'))\<close>\<close>

definition percentage :: "'f float_ops \<Rightarrow> string \<Rightarrow> 'f option" where
  "percentage ops v = float_of_str ops (str_strip v ''%'')"

text \<open>
  An instance for evaluation at concrete inputs: the floats \<open>n.0\<close> for a natural
  number \<open>n\<close>, read from an unsigned decimal literal of at most 15 digits. On these
  literals it agrees with CPython (the values and the sums of the at most four segments
  of a bar are below \<open>2 ^ 53\<close>, so they are exact, and are printed as \<open>n.0\<close>). CPython
  accepts more literals than this instance, which is therefore only used at inputs whose
  percentages are such literals; every general theorem holds for all \<open>float_ops\<close>.
\<close>

definition is_digit :: "char \<Rightarrow> bool" where
  "is_digit c = (48 \<le> (of_char c :: nat) \<and> (of_char c :: nat) \<le> 57)"

definition read_nat :: "string \<Rightarrow> nat" where
  "read_nat s = foldl (\<lambda>a c. 10 * a + (of_char c - 48)) 0 s"

function show_nat :: "nat \<Rightarrow> string" where
  "show_nat n =
     (if n < 10 then [char_of (48 + n)] else show_nat (n div 10) @ [char_of (48 + n mod 10)])"
  by pat_completeness auto
termination
  by (relation "measure id") auto

definition small_float_ops :: "nat float_ops" where
  "small_float_ops =
     \<lparr> float_of_str = (\<lambda>s. if s \<noteq> [] \<and> length s \<le> 15 \<and> list_all is_digit s
                              then Some (read_nat s) else None),
       float_add = (+),
       float_zero = 0,
       float_repr = (\<lambda>n. show_nat n @ ''.0'') \<rparr>"

section \<open>The progress bar\<close>

text \<open>
  A \<open>dict\<close> from \<open>str\<close> to \<open>str\<close> is an association list in insertion order;
  \<^const>\<open>map_of\<close> reads it and \<^const>\<open>AList.update\<close> writes it as Python does (an
  existing key keeps its place, a new key goes to the end).
\<close>

type_synonym strdict = "(string \<times> string) list"

definition colors :: strdict where
  "colors =
     [(''finished'', ''lightgreen''),
      (''transferring'', ''turquoise''),
      (''running'', ''deepskyblue''),
      (''failed'', ''crimson'')]"

definition progress_str :: "strdict \<Rightarrow> string" where
  "progress_str progress_values =
     str_join '' '' (map (\<lambda>(key, val). key @ '': '' @ val) progress_values)"

definition segment_html :: "'f float_ops \<Rightarrow> 'f pynum \<times> 'f \<times> string \<Rightarrow> string" where
  \<open>segment_html ops seg =
     (case seg of (cumul, val, color) \<Rightarrow>
        ''<div class="progress-bar" style="''
        @ (''left: '' @ num_format ops cumul @ ''%; width: '' @ float_repr ops val
           @ ''%; background-color: '' @ color)
        @ ''"></div>'')\<close>

text \<open>
  The loop over \<^verbatim>\<open>colors.items()\<close>, with the variables \<open>html\<close> and \<open>cumul\<close> as
  its state.
\<close>

fun bar_loop ::
  "'f float_ops \<Rightarrow> strdict \<Rightarrow> strdict \<Rightarrow> string \<times> 'f pynum \<Rightarrow> error + (string \<times> 'f pynum)"
where
  "bar_loop ops progress_values [] (html, cumul) = Inr (html, cumul)"
| "bar_loop ops progress_values ((status, color) # rest) (html, cumul) =
     (case map_of progress_values status of
        None \<Rightarrow> bar_loop ops progress_values rest (html, cumul)
      | Some v \<Rightarrow>
          (case percentage ops v of
             None \<Rightarrow> Inl ValueError
           | Some val \<Rightarrow>
               bar_loop ops progress_values rest
                 (html @ segment_html ops (cumul, val, color), num_add ops cumul val)))"

definition make_progress_bar :: "'f float_ops \<Rightarrow> strdict \<Rightarrow> error + string" where
  \<open>make_progress_bar ops progress_values =
     (case bar_loop ops progress_values colors (''<td> <div class="progress-container">'', IntZero) of
        Inl e \<Rightarrow> Inl e
      | Inr (html, cumul) \<Rightarrow>
          Inr (html @ ''<div class="progress-text">'' @ progress_str progress_values @ ''</div>''
               @ ''</div></td>''))\<close>

text \<open>
  The bar as the specification words it: the statuses of the fixed order that the
  mapping holds, each with its percentage as width. The left offset of the first
  segment is the integer 0; that of a later segment is the sum of the widths before
  it, added to 0 from left to right in float arithmetic.
\<close>

definition present_statuses :: "'f float_ops \<Rightarrow> strdict \<Rightarrow> (string \<times> 'f \<times> string) list" where
  "present_statuses ops progress_values =
     concat (map (\<lambda>(status, color).
        case map_of progress_values status of
          None \<Rightarrow> []
        | Some v \<Rightarrow> (case percentage ops v of None \<Rightarrow> [] | Some w \<Rightarrow> [(status, w, color)]))
       [(''finished'', ''lightgreen''), (''transferring'', ''turquoise''),
        (''running'', ''deepskyblue''), (''failed'', ''crimson'')])"

definition cumulative :: "'f float_ops \<Rightarrow> 'f list \<Rightarrow> 'f pynum" where
  "cumulative ops widths =
     (if widths = [] then IntZero
      else Float (foldl (float_add ops) (float_zero ops) widths))"

definition spec_segments ::
  "'f float_ops \<Rightarrow> (string \<times> 'f \<times> string) list \<Rightarrow> ('f pynum \<times> 'f \<times> string) list"
where
  "spec_segments ops present =
     map (\<lambda>i. (cumulative ops (map (\<lambda>(s, w, c). w) (take i present)),
                fst (snd (present ! i)), snd (snd (present ! i))))
       [0 ..< length present]"

definition percentages_ok :: "'f float_ops \<Rightarrow> strdict \<Rightarrow> bool" where
  "percentages_ok ops progress_values =
     list_all (\<lambda>status.
        case map_of progress_values status of
          None \<Rightarrow> True
        | Some v \<Rightarrow> percentage ops v \<noteq> None)
       [''finished'', ''transferring'', ''running'', ''failed'']"

text \<open>
  Auxiliary notions for the proofs: the segments with the offset carried along, and the
  two definitions above over any list of colours.
\<close>

fun running_segments ::
  "'f float_ops \<Rightarrow> 'f pynum \<Rightarrow> (string \<times> 'f \<times> string) list \<Rightarrow> ('f pynum \<times> 'f \<times> string) list"
where
  "running_segments ops left [] = []"
| "running_segments ops left ((s, w, c) # rest) =
     (left, w, c) # running_segments ops (num_add ops left w) rest"

definition present_in :: "'f float_ops \<Rightarrow> strdict \<Rightarrow> strdict \<Rightarrow> (string \<times> 'f \<times> string) list" where
  "present_in ops progress_values cs =
     concat (map (\<lambda>(status, color).
        case map_of progress_values status of
          None \<Rightarrow> []
        | Some v \<Rightarrow> (case percentage ops v of None \<Rightarrow> [] | Some w \<Rightarrow> [(status, w, color)])) cs)"

definition parse_ok :: "'f float_ops \<Rightarrow> strdict \<Rightarrow> string \<Rightarrow> bool" where
  "parse_ok ops progress_values status =
     (case map_of progress_values status of
        None \<Rightarrow> True
      | Some v \<Rightarrow> percentage ops v \<noteq> None)"


section \<open>The report renderer\<close>

text \<open>
  \<^verbatim>\<open>define_css_style()\<close>, a constant string.
\<close>

definition define_css_style :: string where
  \<open>define_css_style =
     ''<style>''
     @ ''body {'' @ nl
     @ ''margin: 0;'' @ nl
     @ ''padding: 0;'' @ nl
     @ ''width: 100%;'' @ nl
     @ ''}'' @ nl
     @ ''h1 {'' @ nl
     @ ''width: 100%;'' @ nl
     @ ''text-align: center;'' @ nl
     @ ''font-size:20px;'' @ nl
     @ ''margin:0;'' @ nl
     @ ''padding:0;'' @ nl
     @ ''background: red;'' @ nl
     @ ''color: #FFF;'' @ nl
     @ ''display: inline-block;'' @ nl
     @ ''}'' @ nl
     @ ''h3 {'' @ nl
     @ ''width: 100%;'' @ nl
     @ ''text-align: center;'' @ nl
     @ ''font-size:15px;'' @ nl
     @ ''background: #EAEDED;'' @ nl
     @ ''margin:0;'' @ nl
     @ ''padding:0;'' @ nl
     @ ''display: inline-block;'' @ nl
     @ ''}'' @ nl
     @ ''.divide tr td { width:60%; }'' @ nl
     @ ''.progress-container {'' @ nl
     @ ''width: 100%;'' @ nl
     @ ''height: 20px;'' @ nl
     @ ''border: 1px solid black;'' @ nl
     @ ''position: relative;'' @ nl
     @ ''padding: 3px;'' @ nl
     @ ''}'' @ nl
     @ ''.progress-text {'' @ nl
     @ ''position: absolute;'' @ nl
     @ ''left: 5%;'' @ nl
     @ ''}'' @ nl
     @ ''.progress-bar {'' @ nl
     @ ''position: absolute;'' @ nl
     @ ''height: 20px;'' @ nl
     @ ''}'' @ nl
     @ ''</style>'' @ nl\<close>

text \<open>
  The argument \<open>data\<close> of \<^verbatim>\<open>web\<close>: the optional key \<open>meta\<close> and the key \<open>samples\<close>,
  a \<open>dict\<close> from sample names to sample records. A sample record has the key \<open>status\<close>
  and, optionally for \<^verbatim>\<open>web\<close>, the key \<open>grafana\<close>.
\<close>

record sample_rec =
  status :: strdict
  grafana :: "string option"

record data =
  meta :: "strdict option"
  samples :: "(string \<times> sample_rec) list"

text \<open>\<^verbatim>\<open>xs[i]\<close> for an index that is not negative\<close>

definition index :: "'a list \<Rightarrow> nat \<Rightarrow> error + 'a" where
  "index xs i = (if i < length xs then Inr (xs ! i) else Inl IndexError)"

text \<open>
  The names of a sample: \<open>samplename\<close>, \<open>sampleshortname\<close> and \<open>versionshortname\<close>
  (the variables \<open>versionname\<close> and \<open>production\<close> are not used afterwards).
\<close>

definition format_sample_name :: "string \<Rightarrow> error + (string \<times> string \<times> string)" where
  "format_sample_name sample =
     (if str_count sample CHR ''/'' = 2
      then (let sampleparts = str_split_sep sample CHR ''/''
            in case index sampleparts 1 of
                 Inl e \<Rightarrow> Inl e
               | Inr samplename \<Rightarrow>
                   (case index (str_split_sep samplename CHR ''_'') 0 of
                      Inl e \<Rightarrow> Inl e
                    | Inr sampleshortname \<Rightarrow>
                        (case index sampleparts 2 of
                           Inl e \<Rightarrow> Inl e
                         | Inr versionname \<Rightarrow>
                             (case index (str_split_sep (str_replace ''crab_'' [] versionname) CHR ''-'') 0 of
                                Inl e \<Rightarrow> Inl e
                              | Inr versionshortname \<Rightarrow>
                                  (case index sampleparts 0 of
                                     Inl e \<Rightarrow> Inl e
                                   | Inr production \<Rightarrow>
                                       Inr (samplename, sampleshortname, versionshortname))))))
      else Inr (sample, sample, ''-''))"

text \<open>
  One of the three fractions: the integer \<^verbatim>\<open>0\<close> unless the status mapping has the
  key, and then the float of its percentage.
\<close>

definition fraction :: "'f float_ops \<Rightarrow> strdict \<Rightarrow> string \<Rightarrow> error + 'f pynum" where
  "fraction ops sample_status key =
     (case map_of sample_status key of
        None \<Rightarrow> Inr IntZero
      | Some v \<Rightarrow> (case percentage ops v of None \<Rightarrow> Inl ValueError | Some x \<Rightarrow> Inr (Float x)))"

text \<open>
  The condition of the special case for old submissions, under \<^verbatim>\<open>if not force\<close>.
\<close>

definition irretrievable :: "strdict \<Rightarrow> 'f pynum \<Rightarrow> bool" where
  "irretrievable sample_status finished_fraction =
     (length sample_status = 1
      \<and> ''finished'' \<in> fst ` set sample_status
      \<and> num_eq_str finished_fraction ''0%'')"

text \<open>
  The body of the loop over the samples: the text it appends to the page, or the
  exception it raises. (The variable \<open>status_str\<close> is computed and never used.)
\<close>

definition sample_row :: "'f float_ops \<Rightarrow> bool \<Rightarrow> string \<Rightarrow> sample_rec \<Rightarrow> error + string" where
  \<open>sample_row ops force sample rec =
     (case format_sample_name sample of
        Inl e \<Rightarrow> Inl e
      | Inr (samplename, sampleshortname, versionshortname) \<Rightarrow>
          (let sample_grafana = (case grafana rec of None \<Rightarrow> [] | Some g \<Rightarrow> g);
               sample_status = status rec
           in case fraction ops sample_status ''finished'' of
                Inl e \<Rightarrow> Inl e
              | Inr finished_fraction \<Rightarrow>
                  (case fraction ops sample_status ''transferring'' of
                     Inl e \<Rightarrow> Inl e
                   | Inr transferring_fraction \<Rightarrow>
                       (case fraction ops sample_status ''running'' of
                          Inl e \<Rightarrow> Inl e
                        | Inr running_fraction \<Rightarrow>
                            if \<not> force \<and> irretrievable sample_status finished_fraction
                            then Inl (Irretrievable samplename)
                            else (case make_progress_bar ops sample_status of
                                    Inl e \<Rightarrow> Inl e
                                  | Inr bar \<Rightarrow>
                                      Inr (''<table class="divide" cellpadding="5px" cellspacing="0">'' @ nl
                                           @ ''<tr>'' @ nl
                                           @ ''<td style="width:20%">'' @ sampleshortname @ ''</td>''
                                           @ ''<td style="width:20%">'' @ versionshortname @ ''</td>''
                                           @ bar
                                           @ ''<td style="width:20%"> <a href="'' @ sample_grafana
                                           @ ''" target="_blank">Grafana</a> </td>'' @ nl
                                           @ ''</tr>'' @ nl))))))\<close>

text \<open>
  The loop over the sorted sample names, with the page as its state.
\<close>

fun sample_rows ::
  "'f float_ops \<Rightarrow> bool \<Rightarrow> (string \<times> sample_rec) list \<Rightarrow> string list \<Rightarrow> string \<Rightarrow> error + string"
where
  "sample_rows ops force sampledata [] page = Inr page"
| "sample_rows ops force sampledata (sample # rest) page =
     (case map_of sampledata sample of
        None \<Rightarrow> Inl KeyError
      | Some rec \<Rightarrow>
          (case sample_row ops force sample rec of
             Inl e \<Rightarrow> Inl e
           | Inr row \<Rightarrow> sample_rows ops force sampledata rest (page @ row)))"

definition meta_info :: "strdict option \<Rightarrow> string" where
  \<open>meta_info m =
     (case m of
        Some meta_dict \<Rightarrow>
          concat (map (\<lambda>(key, val).
              ''<table class="divide" cellpadding="5px" cellspacing="0">'' @ nl
              @ ''<tr>'' @ nl
              @ ''<td style="width:30%">'' @ key @ ''</td>''
              @ ''<td style="widht:70%">'' @ val @ ''</td>'' @ nl
              @ ''</tr>'' @ nl) meta_dict)
          @ ''</table>'' @ nl
      | None \<Rightarrow>
          ''<table class="divide" cellpadding="5px" cellspacing="0">'' @ nl
          @ ''<tr>'' @ nl
          @ ''<td>(nothing to display)</td>''
          @ ''</tr>'' @ nl
          @ ''</table>'' @ nl)\<close>

text \<open>
  \<^verbatim>\<open>sorted(list(sampledata.keys()), key=lambda x: x.lower())\<close>; Python's sort is
  stable, as \<^const>\<open>sort_key\<close> is, and compares strings code point by code point.
\<close>

definition sorted_samples :: "(string \<times> sample_rec) list \<Rightarrow> string list" where
  "sorted_samples sampledata = sort_key str_lower (map fst sampledata)"

text \<open>
  The page that \<^verbatim>\<open>web\<close> builds; \<open>now\<close> is the text of
  \<^verbatim>\<open>now.strftime("%d/%m/%Y %H:%M:%S")\<close>.
\<close>

definition render_page :: "'f float_ops \<Rightarrow> string \<Rightarrow> data \<Rightarrow> bool \<Rightarrow> error + string" where
  \<open>render_page ops now d force =
     (case sample_rows ops force (samples d) (sorted_samples (samples d))
             (''<html>'' @ nl
              @ ''<head>'' @ nl @ define_css_style @ ''</head>'' @ nl
              @ ''<body>'' @ nl
              @ ''<table style="background-color:#2C3E50;color:#EAECEE;''
              @ ''font-size:40px;width:100%;text-align: center;">''
              @ ''<tr><td>Status of ntuple production</td></tr>''
              @ ''<tr><td style="font-size:15px;">Last update: '' @ now @ ''</td></tr>''
              @ ''</table>'' @ nl
              @ ''<div id="meta-info"><h1>Meta-info</h1></div>'' @ nl
              @ meta_info (meta d)
              @ ''<div id="samples"><h1>Samples</h1></div>'' @ nl) of
        Inl e \<Rightarrow> Inl e
      | Inr page \<Rightarrow> Inr (page @ ''</table>'' @ nl @ ''</body>'' @ nl @ ''</html>''))\<close>

text \<open>
  The directory \<open>webpath\<close> as \<^verbatim>\<open>web\<close> sees it: whether it exists, and the content of
  its file \<open>index.html\<close> if there is one. \<^verbatim>\<open>web\<close> creates the directory first, builds the
  page, and writes the file last; an exception leaves the state that was reached. It
  returns the exception raised, if any, and the new state of the directory.
\<close>

record webdir =
  dir_exists :: bool
  index_html :: "string option"

definition web ::
  "'f float_ops \<Rightarrow> string \<Rightarrow> data \<Rightarrow> webdir \<Rightarrow> bool \<Rightarrow> error option \<times> webdir"
where
  "web ops now d webpath force =
     (let made = webpath\<lparr>dir_exists := True\<rparr>
      in case render_page ops now d force of
           Inl e \<Rightarrow> (Some e, made)
         | Inr page \<Rightarrow> (None, made\<lparr>index_html := Some page\<rparr>))"

section \<open>The aggregator\<close>

text \<open>
  What the main section reads from its environment, for a sample directory \<open>f\<close>:
  \<^item> \<open>read_log f k\<close>: the lines \<^verbatim>\<open>fin.read().splitlines()\<close> of the log file after the
    status command has run for the \<open>k + 1\<close>-th time in the retry loop of \<open>f\<close>. The
    file is read once more after the loop (line 335); nothing writes to it in between,
    so the model takes the same lines there;
  \<^item> \<open>results_exist f\<close>: \<^verbatim>\<open>os.path.isfile(f+'/results/processedLumis.json')\<close>;
  \<^item> \<open>script_exists exe\<close>: \<^verbatim>\<open>os.path.exists(exe)\<close>.
\<close>

record world =
  read_log :: "string \<Rightarrow> nat \<Rightarrow> string list"
  results_exist :: "string \<Rightarrow> bool"
  script_exists :: "string \<Rightarrow> bool"

text \<open>
  What the main section does to its environment, in order: the message that names the
  sample being processed (line 303), a run of the status command of a sample (line
  315), a run of its resubmission command (line 373), and the message
  \<^verbatim>\<open>This task is completed...\<close> (line 378). The other messages are not modelled.
\<close>

datatype event =
    Processing string
  | StatusCmd string
  | ResubmitCmd string
  | TaskCompleted

text \<open>
  The state of a run: \<^verbatim>\<open>data['samples']\<close> and the events so far. A function of the
  aggregator returns the state it reached together with the exception raised, if any.
\<close>

record run =
  run_samples :: "(string \<times> sample_rec) list"
  events :: "event list"

text \<open>\<^verbatim>\<open>os.path.basename(f)\<close>: what follows the last slash\<close>

definition basename :: "string \<Rightarrow> string" where
  "basename f = rev (takeWhile (\<lambda>c. c \<noteq> CHR ''/'') (rev f))"

text \<open>\<^verbatim>\<open>f.split(sep)[0]\<close> for a non-empty \<open>sep\<close>: what precedes its first occurrence\<close>

fun before_first :: "string \<Rightarrow> string \<Rightarrow> string" where
  "before_first sep [] = []"
| "before_first sep (c # cs) =
     (if startswith (c # cs) sep then [] else c # before_first sep cs)"

text \<open>\<^verbatim>\<open>os.path.join(a, b)\<close> for a relative \<open>b\<close>\<close>

definition path_join :: "string \<Rightarrow> string \<Rightarrow> string" where
  "path_join a b = (if a = [] \<or> last a = CHR ''/'' then a @ b else a @ ''/'' @ b)"

definition job_statuses :: "string list" where
  "job_statuses =
     [''finished'', ''running'', ''transferring'', ''failed'', ''killed'', ''idle'',
      ''unsubmitted'', ''toRetry'']"

text \<open>\<^verbatim>\<open>data['samples'][name]['status'][key] = frac\<close>\<close>

definition set_status ::
  "string \<Rightarrow> string \<Rightarrow> string \<Rightarrow> (string \<times> sample_rec) list \<Rightarrow> error + (string \<times> sample_rec) list"
where
  "set_status name key frac sd =
     (case map_of sd name of
        None \<Rightarrow> Inl KeyError
      | Some r \<Rightarrow> Inr (AList.update name (r\<lparr>status := AList.update key frac (status r)\<rparr>) sd))"

text \<open>\<^verbatim>\<open>data['samples'][name]['grafana'] = url\<close>\<close>

definition set_grafana ::
  "string \<Rightarrow> string \<Rightarrow> (string \<times> sample_rec) list \<Rightarrow> error + (string \<times> sample_rec) list"
where
  "set_grafana name url sd =
     (case map_of sd name of
        None \<Rightarrow> Inl KeyError
      | Some r \<Rightarrow> Inr (AList.update name (r\<lparr>grafana := Some url\<rparr>) sd))"

text \<open>\<^verbatim>\<open>data['samples'][name]['status'] = {'crab status': 'failed'}\<close>\<close>

definition set_failed ::
  "string \<Rightarrow> (string \<times> sample_rec) list \<Rightarrow> error + (string \<times> sample_rec) list"
where
  "set_failed name sd =
     (case map_of sd name of
        None \<Rightarrow> Inl KeyError
      | Some r \<Rightarrow> Inr (AList.update name (r\<lparr>status := [(''crab status'', ''failed'')]\<rparr>) sd))"

text \<open>
  The loop over the known job statuses for one line (lines 347 to 357): \<open>w0\<close> is
  \<^verbatim>\<open>words[0]\<close> and \<open>frac\<close> is \<^verbatim>\<open>words[1]\<close>, or \<^verbatim>\<open><none>\<close> when the line has one word.
  The state is \<^verbatim>\<open>data['samples']\<close> and the flag \<open>jobsfailed\<close>.
\<close>

fun status_loop ::
  "string \<Rightarrow> string \<Rightarrow> string \<Rightarrow> string list \<Rightarrow> (string \<times> sample_rec) list \<times> bool
   \<Rightarrow> ((string \<times> sample_rec) list \<times> bool) \<times> error option"
where
  "status_loop name w0 frac [] (sd, jobsfailed) = ((sd, jobsfailed), None)"
| "status_loop name w0 frac (key # rest) (sd, jobsfailed) =
     (if contains key w0
      then (case set_status name key frac sd of
              Inl e \<Rightarrow> ((sd, jobsfailed), Some e)
            | Inr sd' \<Rightarrow>
                status_loop name w0 frac rest (sd', (if key = ''failed'' then True else jobsfailed)))
      else status_loop name w0 frac rest (sd, jobsfailed))"

text \<open>The body of the loop over the lines of the log (lines 343 to 360).\<close>

definition parse_line ::
  "string \<Rightarrow> string \<Rightarrow> (string \<times> sample_rec) list \<times> bool
   \<Rightarrow> ((string \<times> sample_rec) list \<times> bool) \<times> error option"
where
  "parse_line name line0 st =
     (let line = str_replace ''Jobs status:'' [] line0;
          words = str_split line
      in case words of
           [] \<Rightarrow> (st, None)
         | w0 # ws \<Rightarrow>
             (let frac = (case ws of [] \<Rightarrow> ''<none>'' | w1 # _ \<Rightarrow> w1)
              in case status_loop name w0 frac job_statuses st of
                   (st', Some e) \<Rightarrow> (st', Some e)
                 | ((sd', jobsfailed'), None) \<Rightarrow>
                     if startswith line ''Dashboard monitoring URL''
                     then (case index words 3 of
                             Inl e \<Rightarrow> ((sd', jobsfailed'), Some e)
                           | Inr url \<Rightarrow>
                               (case set_grafana name url sd' of
                                  Inl e \<Rightarrow> ((sd', jobsfailed'), Some e)
                                | Inr sd'' \<Rightarrow> ((sd'', jobsfailed'), None)))
                     else ((sd', jobsfailed'), None)))"

fun parse_lines ::
  "string \<Rightarrow> string list \<Rightarrow> (string \<times> sample_rec) list \<times> bool
   \<Rightarrow> ((string \<times> sample_rec) list \<times> bool) \<times> error option"
where
  "parse_lines name [] st = (st, None)"
| "parse_lines name (line0 # rest) st =
     (case parse_line name line0 st of
        (st', Some e) \<Rightarrow> (st', Some e)
      | (st', None) \<Rightarrow> parse_lines name rest st')"

text \<open>
  The check after the loop over the lines (lines 363 to 366). It reads the variable
  \<open>line\<close>, which holds the last line of the log with the marker removed. A log that
  passed the retry loop has a line, so the first case does not arise.
\<close>

definition status_completed :: "world \<Rightarrow> string \<Rightarrow> string list \<Rightarrow> bool" where
  "status_completed w f outlines =
     (case rev outlines of
        [] \<Rightarrow> False
      | line0 # _ \<Rightarrow>
          (let line = str_replace ''Jobs status:'' [] line0
           in contains ''Status on the scheduler'' line
              \<and> contains ''COMPLETED'' line
              \<and> \<not> results_exist w f))"

text \<open>The test of one attempt (lines 319 to 322).\<close>

definition thissucces :: "string list \<Rightarrow> bool" where
  "thissucces outlines =
     (length outlines > 0
      \<and> length (filter (\<lambda>l. startswith l ''Jobs status:'') outlines) = 1)"

text \<open>
  The retry loop (lines 312 to 326), from the value of \<open>attempt\<close>: the log that passed
  the test, if one did, and the events with the runs of the status command added.
\<close>

function retry_loop ::
  "world \<Rightarrow> string \<Rightarrow> nat \<Rightarrow> event list \<Rightarrow> string list option \<times> event list"
where
  "retry_loop w f attempt evs =
     (if attempt < 5
      then (let evs' = evs @ [StatusCmd f];
                outlines = read_log w f attempt
            in if thissucces outlines then (Some outlines, evs')
               else retry_loop w f (attempt + 1) evs')
      else (None, evs))"
  by pat_completeness auto
termination
  by (relation "measure (\<lambda>(w, f, attempt, evs). 5 - attempt)") auto

text \<open>The body of the loop over the samples (lines 302 to 378).\<close>

definition process_sample :: "world \<Rightarrow> bool \<Rightarrow> string \<Rightarrow> run \<Rightarrow> run \<times> error option" where
  "process_sample w resubmit f st =
     (case retry_loop w f 0 (events st @ [Processing f]) of
        (None, evs) \<Rightarrow>
          (case set_failed (basename f) (run_samples st) of
             Inl e \<Rightarrow> (st\<lparr>events := evs\<rparr>, Some e)
           | Inr sd \<Rightarrow> (\<lparr>run_samples = sd, events = evs\<rparr>, None))
      | (Some outlines, evs) \<Rightarrow>
          (case parse_lines (basename f) outlines (run_samples st, False) of
             ((sd, jobsfailed), Some e) \<Rightarrow> (\<lparr>run_samples = sd, events = evs\<rparr>, Some e)
           | ((sd, jobsfailed), None) \<Rightarrow>
               (let statuscompleted = status_completed w f outlines;
                    evs1 = (if jobsfailed \<and> resubmit then evs @ [ResubmitCmd f] else evs);
                    evs2 = (if statuscompleted then evs1 @ [TaskCompleted] else evs1)
                in (\<lparr>run_samples = sd, events = evs2\<rparr>, None))))"

fun sample_loop :: "world \<Rightarrow> bool \<Rightarrow> string list \<Rightarrow> run \<Rightarrow> run \<times> error option" where
  "sample_loop w resubmit [] st = (st, None)"
| "sample_loop w resubmit (f # rest) st =
     (case process_sample w resubmit f st of
        (st', Some e) \<Rightarrow> (st', Some e)
      | (st', None) \<Rightarrow> sample_loop w resubmit rest st')"

text \<open>The initialization of all samples (lines 297 and 298).\<close>

definition init_samples :: "string list \<Rightarrow> (string \<times> sample_rec) list" where
  "init_samples fproc =
     foldl (\<lambda>sd f. AList.update (basename f)
                      \<lparr>status = [(''finished'', ''0%'')], grafana = Some []\<rparr> sd) [] fproc"

text \<open>
  The main section from the search for the sample directories to the end of the loop
  over the samples: \<open>found\<close> is the result of \<^verbatim>\<open>glob.glob\<close>, \<open>test\<close> and \<open>resubmit\<close>
  are the two command-line switches.
\<close>

definition select_samples :: "bool \<Rightarrow> string list \<Rightarrow> string list" where
  "select_samples test found =
     (let fproc = sort found
      in if test then take (min 3 (length fproc)) fproc else fproc)"

definition aggregate :: "world \<Rightarrow> bool \<Rightarrow> bool \<Rightarrow> string list \<Rightarrow> run \<times> error option" where
  "aggregate w test resubmit found =
     (if length (sort found) = 0 then (\<lparr>run_samples = [], events = []\<rparr>, Some NoSamples)
      else (let fproc = select_samples test found
            in case filter (\<lambda>f. \<not> script_exists w
                                    (path_join (before_first ''/crab_logs/'' f) ''crab_status.sh''))
                      fproc of
                 f # _ \<Rightarrow> (\<lparr>run_samples = [], events = []\<rparr>, Some (MissingScript f))
               | [] \<Rightarrow> sample_loop w resubmit fproc
                        \<lparr>run_samples = init_samples fproc, events = []\<rparr>))"

text \<open>
  Auxiliary notions for the proofs: the status mapping after the loop over the known
  job statuses, and after one line of the log.
\<close>

definition apply_statuses :: "string \<Rightarrow> string \<Rightarrow> string list \<Rightarrow> strdict \<Rightarrow> strdict" where
  "apply_statuses w0 frac keys s =
     foldl (\<lambda>s key. if contains key w0 then AList.update key frac s else s) s keys"

definition line_statuses :: "string \<Rightarrow> strdict \<Rightarrow> strdict" where
  "line_statuses line0 s =
     (case str_split (str_replace ''Jobs status:'' [] line0) of
        [] \<Rightarrow> s
      | w0 # ws \<Rightarrow>
          apply_statuses w0 (case ws of [] \<Rightarrow> ''<none>'' | w1 # _ \<Rightarrow> w1) job_statuses s)"


text \<open>
  Auxiliary notions for the proofs about the loop over the samples: a status mapping
  that keeps its keys and gains known job statuses only, the record that the
  initialization stores, the two properties of a record that the loop maintains, and
  the samples still to be processed, whose records hold the key \<open>finished\<close>.
\<close>

definition extends :: "strdict \<Rightarrow> strdict \<Rightarrow> bool" where
  "extends s s' =
     (fst ` set s \<subseteq> fst ` set s' \<and> fst ` set s' \<subseteq> fst ` set s \<union> set job_statuses)"


definition initial_rec :: sample_rec where
  "initial_rec = \<lparr>status = [(''finished'', ''0%'')], grafana = Some []\<rparr>"

definition keys_allowed :: "sample_rec \<Rightarrow> bool" where
  "keys_allowed r = (fst ` set (status r) \<subseteq> set job_statuses \<union> {''crab status''})"

definition failed_or_finished :: "sample_rec \<Rightarrow> bool" where
  "failed_or_finished r =
     (status r = [(''crab status'', ''failed'')] \<or> ''finished'' \<in> fst ` set (status r))"

definition pending_ok :: "(string \<times> sample_rec) list \<Rightarrow> string list \<Rightarrow> bool" where
  "pending_ok sd fs =
     list_all (\<lambda>f. case map_of sd (basename f) of
                      None \<Rightarrow> False
                    | Some r \<Rightarrow> ''finished'' \<in> fst ` set (status r)) fs"


text \<open>
  The sample directories that a run has started to process, in order, read off its
  events.
\<close>

fun polled :: "event list \<Rightarrow> string list" where
  "polled [] = []"
| "polled (Processing f # es) = f # polled es"
| "polled (StatusCmd f # es) = polled es"
| "polled (ResubmitCmd f # es) = polled es"
| "polled (TaskCompleted # es) = polled es"


text \<open>
  The page as the specification sees it: the text before the first row of a sample and
  the text after the last, the row of a sample name (or the exception that its
  rendering raises), and the rows of a list of names in order, up to the first that
  raises.
\<close>

definition page_header :: "string \<Rightarrow> strdict option \<Rightarrow> string" where
  \<open>page_header now m =
     ''<html>'' @ nl
     @ ''<head>'' @ nl @ define_css_style @ ''</head>'' @ nl
     @ ''<body>'' @ nl
     @ ''<table style="background-color:#2C3E50;color:#EAECEE;''
     @ ''font-size:40px;width:100%;text-align: center;">''
     @ ''<tr><td>Status of ntuple production</td></tr>''
     @ ''<tr><td style="font-size:15px;">Last update: '' @ now @ ''</td></tr>''
     @ ''</table>'' @ nl
     @ ''<div id="meta-info"><h1>Meta-info</h1></div>'' @ nl
     @ meta_info m
     @ ''<div id="samples"><h1>Samples</h1></div>'' @ nl\<close>

definition page_footer :: string where
  "page_footer = ''</table>'' @ nl @ ''</body>'' @ nl @ ''</html>''"

definition row_of ::
  "'f float_ops \<Rightarrow> bool \<Rightarrow> (string \<times> sample_rec) list \<Rightarrow> string \<Rightarrow> error + string"
where
  "row_of ops force sd name =
     (case map_of sd name of
        None \<Rightarrow> Inl KeyError
      | Some r \<Rightarrow> sample_row ops force name r)"

fun join_rows :: "(error + string) list \<Rightarrow> error + string" where
  "join_rows [] = Inr []"
| "join_rows (Inl e # rest) = Inl e"
| "join_rows (Inr row # rest) =
     (case join_rows rest of Inl e \<Rightarrow> Inl e | Inr rows \<Rightarrow> Inr (row @ rows))"

section \<open>Properties of the progress bar\<close>

lemma present_in_Cons:
  "present_in ops pv ((s, c) # cs) =
     (case map_of pv s of None \<Rightarrow> []
      | Some v \<Rightarrow> (case percentage ops v of None \<Rightarrow> [] | Some w \<Rightarrow> [(s, w, c)]))
     @ present_in ops pv cs"
  by (simp add: present_in_def)

lemma present_in_Nil: "present_in ops pv [] = []"
  by (simp add: present_in_def)

lemma bar_loop_running:
  "list_all (parse_ok ops pv) (map fst cs) \<Longrightarrow>
   bar_loop ops pv cs (html, cumul) =
     Inr (html @ concat (map (segment_html ops) (running_segments ops cumul (present_in ops pv cs))),
          foldl (num_add ops) cumul (map (\<lambda>(s, w, c). w) (present_in ops pv cs)))"
proof (induction cs arbitrary: html cumul)
  case Nil
  then show ?case by (simp add: present_in_Nil)
next
  case (Cons p cs)
  obtain s c where p: "p = (s, c)" by (cases p)
  from Cons.prems have ok: "parse_ok ops pv s" and rest: "list_all (parse_ok ops pv) (map fst cs)"
    by (simp_all add: p)
  show ?case
  proof (cases "map_of pv s")
    case None
    then show ?thesis using Cons.IH [OF rest] by (simp add: p present_in_Cons)
  next
    case (Some v)
    with ok obtain w where w: "percentage ops v = Some w"
      by (auto simp: parse_ok_def)
    show ?thesis using Cons.IH [OF rest] Some w by (simp add: p present_in_Cons)
  qed
qed

lemma running_segments_index:
  "running_segments ops (foldl (num_add ops) IntZero pre) xs =
     map (\<lambda>i. (foldl (num_add ops) IntZero (pre @ map (\<lambda>(s, w, c). w) (take i xs)),
                fst (snd (xs ! i)), snd (snd (xs ! i))))
       [0 ..< length xs]"
proof (induction xs arbitrary: pre)
  case Nil
  then show ?case by simp
next
  case (Cons x xs)
  obtain s w c where x: "x = (s, w, c)" by (cases x)
  have "running_segments ops (foldl (num_add ops) IntZero (pre @ [w])) xs =
     map (\<lambda>i. (foldl (num_add ops) IntZero ((pre @ [w]) @ map (\<lambda>(s, w, c). w) (take i xs)),
                fst (snd (xs ! i)), snd (snd (xs ! i))))
       [0 ..< length xs]"
    by (rule Cons.IH)
  moreover have "[Suc 0 ..< Suc (length xs)] = map Suc [0 ..< length xs]"
    by (simp only: map_Suc_upt)
  ultimately show ?case
    by (simp add: x upt_conv_Cons comp_def del: upt_Suc)
qed

lemma foldl_num_add_Float:
  "foldl (num_add ops) (Float x) ws = Float (foldl (float_add ops) x ws)"
  by (induction ws arbitrary: x) simp_all

lemma foldl_num_add: "foldl (num_add ops) IntZero ws = cumulative ops ws"
  by (cases ws) (simp_all add: cumulative_def foldl_num_add_Float)

lemma running_segments_spec:
  "running_segments ops IntZero xs = spec_segments ops xs"
  using running_segments_index [of ops "[]" xs]
  by (simp add: spec_segments_def foldl_num_add)

lemma present_statuses_colors: "present_statuses ops pv = present_in ops pv colors"
  by (simp add: present_statuses_def present_in_def colors_def)

lemma percentages_ok_colors: "percentages_ok ops pv = list_all (parse_ok ops pv) (map fst colors)"
  by (simp add: percentages_ok_def colors_def parse_ok_def)


lemma present_statuses_keys:
  assumes "percentages_ok ops progress_values"
  shows "map fst (present_statuses ops progress_values) =
     filter (\<lambda>status. status \<in> fst ` set progress_values)
       [''finished'', ''transferring'', ''running'', ''failed'']"
proof -
  have in_dom: "\<And>s. (s \<in> fst ` set progress_values) = (map_of progress_values s \<noteq> None)"
    by (simp add: map_of_eq_None_iff)
  from assms show ?thesis
    by (auto simp: percentages_ok_def present_statuses_def in_dom)
qed

text \<open>
  The bar raises \<^verbatim>\<open>ValueError\<close> exactly when \<^verbatim>\<open>float\<close> rejects the percentage of one of the
  four coloured statuses, so the condition of the next theorem is the condition under
  which a bar is rendered at all.
\<close>

lemma bar_loop_fails:
  "\<not> list_all (parse_ok ops pv) (map fst cs) \<Longrightarrow> bar_loop ops pv cs (html, cumul) = Inl ValueError"
proof (induction cs arbitrary: html cumul)
  case Nil
  then show ?case by simp
next
  case (Cons p cs)
  obtain s c where p: "p = (s, c)" by (cases p)
  show ?case
  proof (cases "parse_ok ops pv s")
    case True
    with Cons.prems have rest: "\<not> list_all (parse_ok ops pv) (map fst cs)" by (simp add: p)
    show ?thesis
      using True Cons.IH [OF rest]
      by (simp add: p parse_ok_def split: option.splits)
  next
    case False
    then show ?thesis
      by (simp add: p parse_ok_def split: option.splits)
  qed
qed

lemma make_progress_bar_raises:
  "\<not> percentages_ok ops progress_values \<Longrightarrow> make_progress_bar ops progress_values = Inl ValueError"
  by (simp add: make_progress_bar_def percentages_ok_colors bar_loop_fails)

text \<open>
  Claim C4, as the code has it. For a status mapping whose percentages for finished,
  transferring, running and failed Python's \<open>float\<close> reads, the bar is the opening tag,
  one segment for each of these four statuses that the mapping holds, in this order,
  each as wide as its percentage and placed at the sum of the widths of the segments
  before it, then the overlay text, which joins the \<open>status: percentage\<close> pairs of the
  whole mapping with spaces. (For any other mapping \<open>make_progress_bar_raises\<close>
  applies.)
\<close>

theorem make_progress_bar_segments:
  assumes "percentages_ok ops progress_values"
  shows \<open>make_progress_bar ops progress_values =
     Inr (''<td> <div class="progress-container">''
          @ concat (map (segment_html ops) (spec_segments ops (present_statuses ops progress_values)))
          @ ''<div class="progress-text">''
          @ str_join '' '' (map (\<lambda>(key, val). key @ '': '' @ val) progress_values)
          @ ''</div></div></td>'')
     \<and> map fst (present_statuses ops progress_values) =
         filter (\<lambda>status. status \<in> fst ` set progress_values)
           [''finished'', ''transferring'', ''running'', ''failed'']\<close>
proof -
  from assms have ok: "list_all (parse_ok ops progress_values) (map fst colors)"
    by (simp add: percentages_ok_colors)
  have \<open>make_progress_bar ops progress_values =
     Inr (''<td> <div class="progress-container">''
          @ concat (map (segment_html ops) (spec_segments ops (present_statuses ops progress_values)))
          @ ''<div class="progress-text">''
          @ str_join '' '' (map (\<lambda>(key, val). key @ '': '' @ val) progress_values)
          @ ''</div></div></td>'')\<close>
    unfolding make_progress_bar_def bar_loop_running [OF ok]
    by (simp add: running_segments_spec present_statuses_colors progress_str_def)
  then show ?thesis
    using present_statuses_keys [OF assms] by simp
qed

theorem make_progress_bar_segments_witness:
  \<open>percentages_ok small_float_ops [(''finished'', ''50%''), (''running'', ''50%'')]
   \<and> make_progress_bar small_float_ops [(''finished'', ''50%''), (''running'', ''50%'')] =
      Inr (''<td> <div class="progress-container">''
           @ ''<div class="progress-bar" style="left: 0%; width: 50.0%; background-color: lightgreen"></div>''
           @ ''<div class="progress-bar" style="left: 50.0%; width: 50.0%; background-color: deepskyblue"></div>''
           @ ''<div class="progress-text">finished: 50% running: 50%</div></div></td>'')
   \<and> percentages_ok small_float_ops
        [(''running'', ''30%''), (''idle'', ''5%''), (''failed'', ''10%''), (''finished'', ''50%''),
         (''transferring'', ''10%'')]
   \<and> make_progress_bar small_float_ops
        [(''running'', ''30%''), (''idle'', ''5%''), (''failed'', ''10%''), (''finished'', ''50%''),
         (''transferring'', ''10%'')] =
      Inr (''<td> <div class="progress-container">''
           @ ''<div class="progress-bar" style="left: 0%; width: 50.0%; background-color: lightgreen"></div>''
           @ ''<div class="progress-bar" style="left: 50.0%; width: 10.0%; background-color: turquoise"></div>''
           @ ''<div class="progress-bar" style="left: 60.0%; width: 30.0%; background-color: deepskyblue"></div>''
           @ ''<div class="progress-bar" style="left: 90.0%; width: 10.0%; background-color: crimson"></div>''
           @ ''<div class="progress-text">running: 30% idle: 5% failed: 10% finished: 50% transferring: 10%</div></div></td>'')\<close>
proof -
  let ?two = "[(''finished'', ''50%''), (''running'', ''50%'')]"
  let ?five = "[(''running'', ''30%''), (''idle'', ''5%''), (''failed'', ''10%''),
      (''finished'', ''50%''), (''transferring'', ''10%'')]"
  have ok2: "percentages_ok small_float_ops ?two"
    by code_simp
  have ok5: "percentages_ok small_float_ops ?five"
    by code_simp
  have segs2: "spec_segments small_float_ops (present_statuses small_float_ops ?two) =
      [(IntZero, 50, ''lightgreen''), (Float 50, 50, ''deepskyblue'')]"
    by code_simp
  have segs5: "spec_segments small_float_ops (present_statuses small_float_ops ?five) =
      [(IntZero, 50, ''lightgreen''), (Float 50, 10, ''turquoise''),
       (Float 60, 30, ''deepskyblue''), (Float 90, 10, ''crimson'')]"
    by code_simp
  have repr: "float_repr small_float_ops 50 = ''50.0''" "float_repr small_float_ops 10 = ''10.0''"
    "float_repr small_float_ops 30 = ''30.0''" "float_repr small_float_ops 60 = ''60.0''"
    "float_repr small_float_ops 90 = ''90.0''"
    by code_simp+
  have two: \<open>make_progress_bar small_float_ops ?two =
      Inr (''<td> <div class="progress-container">''
           @ ''<div class="progress-bar" style="left: 0%; width: 50.0%; background-color: lightgreen"></div>''
           @ ''<div class="progress-bar" style="left: 50.0%; width: 50.0%; background-color: deepskyblue"></div>''
           @ ''<div class="progress-text">finished: 50% running: 50%</div></div></td>'')\<close>
    using segs2 repr make_progress_bar_segments [OF ok2]
    by (simp add: segment_html_def)
  have five: \<open>make_progress_bar small_float_ops ?five =
      Inr (''<td> <div class="progress-container">''
           @ ''<div class="progress-bar" style="left: 0%; width: 50.0%; background-color: lightgreen"></div>''
           @ ''<div class="progress-bar" style="left: 50.0%; width: 10.0%; background-color: turquoise"></div>''
           @ ''<div class="progress-bar" style="left: 60.0%; width: 30.0%; background-color: deepskyblue"></div>''
           @ ''<div class="progress-bar" style="left: 90.0%; width: 10.0%; background-color: crimson"></div>''
           @ ''<div class="progress-text">running: 30% idle: 5% failed: 10% finished: 50% transferring: 10%</div></div></td>'')\<close>
    using segs5 repr make_progress_bar_segments [OF ok5]
    by (simp add: segment_html_def)
  from ok2 two ok5 five show ?thesis by (intro conjI)
qed

text \<open>
  The claim as worded fails: a line \<open>failed\<close> of the log, with no second word, makes
  the parser store failed: \<open><none>\<close>, and for this mapping the bar raises
  \<^verbatim>\<open>ValueError\<close> instead of being rendered.
\<close>

theorem make_progress_bar_segments_counterexample:
  "parse_line ''sampleA'' ''failed''
     ([(''sampleA'', \<lparr>status = [(''finished'', ''0%'')], grafana = Some []\<rparr>)], False) =
     (([(''sampleA'', \<lparr>status = [(''finished'', ''0%''), (''failed'', ''<none>'')],
                        grafana = Some []\<rparr>)], True), None)
   \<and> make_progress_bar small_float_ops [(''finished'', ''0%''), (''failed'', ''<none>'')] =
       Inl ValueError"
  by code_simp

section \<open>Properties of the report renderer\<close>

lemma irretrievable_never: "irretrievable sample_status finished_fraction = False"
  by (simp add: irretrievable_def num_eq_str_def)

lemma sample_row_force: "sample_row ops False sample r = sample_row ops True sample r"
  unfolding sample_row_def irretrievable_never simp_thms if_False
  by simp

lemma sample_rows_force:
  "sample_rows ops False sampledata names page = sample_rows ops True sampledata names page"
  by (induction names arbitrary: page) (simp_all add: sample_row_force split: option.splits sum.splits)

text \<open>
  Claim C1. The claim asks \<^verbatim>\<open>web\<close> with \<open>force=False\<close> to raise and to leave
  \<open>index.html\<close> as it was when a sample has the single status entry finished: 0%. The
  code does not: at such a sample, with a previous report in place, it raises nothing
  and replaces the file. (The guard compares the float \<open>finished_fraction\<close> with the
  string \<open>'0%'\<close>.)
\<close>

theorem web_guard_never_fires:
  "fst (web small_float_ops ''03/11/2026 22:07:00''
          \<lparr>meta = None,
           samples = [(''sampleA'', \<lparr>status = [(''finished'', ''0%'')], grafana = Some []\<rparr>)]\<rparr>
          \<lparr>dir_exists = True, index_html = Some ''previous report''\<rparr> False) = None
   \<and> index_html (snd (web small_float_ops ''03/11/2026 22:07:00''
          \<lparr>meta = None,
           samples = [(''sampleA'', \<lparr>status = [(''finished'', ''0%'')], grafana = Some []\<rparr>)]\<rparr>
          \<lparr>dir_exists = True, index_html = Some ''previous report''\<rparr> False))
       \<noteq> Some ''previous report''"
  by code_simp

text \<open>
  Claim C9. For every data mapping, state of the output directory and timestamp,
  \<^verbatim>\<open>web\<close> with \<open>force=False\<close> and with \<open>force=True\<close> raise the same exception, if any,
  and leave the same directory with the same \<open>index.html\<close>.
\<close>

theorem web_force_irrelevant:
  "web ops now d webpath False = web ops now d webpath True"
  by (simp add: web_def render_page_def sample_rows_force)

theorem web_force_irrelevant_witness:
  "web small_float_ops ''03/11/2026 22:07:00''
     \<lparr>meta = None,
      samples = [(''sampleA'', \<lparr>status = [(''finished'', ''0%'')], grafana = None\<rparr>)]\<rparr>
     \<lparr>dir_exists = False, index_html = None\<rparr> False
   = web small_float_ops ''03/11/2026 22:07:00''
     \<lparr>meta = None,
      samples = [(''sampleA'', \<lparr>status = [(''finished'', ''0%'')], grafana = None\<rparr>)]\<rparr>
     \<lparr>dir_exists = False, index_html = None\<rparr> True"
  by (rule web_force_irrelevant)

section \<open>Properties of the aggregator\<close>

declare retry_loop.simps [simp del]

lemma retry_loop_exhausted:
  "\<forall>k<5. \<not> thissucces (read_log w f k) \<Longrightarrow>
   retry_loop w f attempt evs = (None, evs @ replicate (5 - attempt) (StatusCmd f))"
proof (induction w f attempt evs rule: retry_loop.induct)
  case (1 w f attempt evs)
  show ?case
  proof (cases "attempt < 5")
    case True
    with "1.prems" have no: "\<not> thissucces (read_log w f attempt)" by simp
    have "retry_loop w f attempt evs = retry_loop w f (attempt + 1) (evs @ [StatusCmd f])"
      using True no by (subst retry_loop.simps) simp
    also have "\<dots> = (None, (evs @ [StatusCmd f]) @ replicate (5 - (attempt + 1)) (StatusCmd f))"
      using "1.IH" [OF True refl refl no "1.prems"] .
    also have "(evs @ [StatusCmd f]) @ replicate (5 - (attempt + 1)) (StatusCmd f) =
        evs @ replicate (5 - attempt) (StatusCmd f)"
      using True by (simp add: Suc_diff_Suc flip: replicate_Suc)
    finally show ?thesis .
  next
    case False
    then show ?thesis by (subst retry_loop.simps) simp
  qed
qed

lemma retry_loop_events:
  "\<exists>n. n \<le> 5 - attempt \<and> snd (retry_loop w f attempt evs) = evs @ replicate n (StatusCmd f)"
proof (induction w f attempt evs rule: retry_loop.induct)
  case (1 w f attempt evs)
  show ?case
  proof (cases "attempt < 5")
    case True
    show ?thesis
    proof (cases "thissucces (read_log w f attempt)")
      case yes: True
      have "snd (retry_loop w f attempt evs) = evs @ replicate 1 (StatusCmd f)"
        using True yes by (subst retry_loop.simps) simp
      moreover have "(1::nat) \<le> 5 - attempt" using True by simp
      ultimately show ?thesis by blast
    next
      case no: False
      from "1.IH" [OF True refl refl no] obtain n where
        n: "n \<le> 5 - (attempt + 1)"
           "snd (retry_loop w f (attempt + 1) (evs @ [StatusCmd f])) =
              (evs @ [StatusCmd f]) @ replicate n (StatusCmd f)"
        by blast
      have "snd (retry_loop w f attempt evs) = evs @ replicate (Suc n) (StatusCmd f)"
        using True no n(2) by (subst retry_loop.simps) simp
      moreover have "Suc n \<le> 5 - attempt" using True n(1) by simp
      ultimately show ?thesis by blast
    qed
  next
    case False
    have "snd (retry_loop w f attempt evs) = evs @ replicate 0 (StatusCmd f)"
      using False by (subst retry_loop.simps) simp
    then show ?thesis by blast
  qed
qed

text \<open>
  Claim C2. When none of the five reads of the log of a sample has exactly one line
  that starts with \<open>Jobs status:\<close>, the status command of the sample is run five
  times, the status mapping of the sample becomes exactly \<open>{'crab status': 'failed'}\<close>,
  no exception is raised, and the loop goes on with the next sample. (The record of
  the sample exists: line 298 has created it.)
\<close>

theorem retries_exhausted:
  assumes "\<forall>k<5. length (filter (\<lambda>l. startswith l ''Jobs status:'') (read_log w f k)) \<noteq> 1"
    and "map_of (run_samples st) (basename f) = Some r"
  shows "process_sample w resubmit f st =
           (\<lparr>run_samples = AList.update (basename f) (r\<lparr>status := [(''crab status'', ''failed'')]\<rparr>)
                             (run_samples st),
             events = events st @ Processing f # replicate 5 (StatusCmd f)\<rparr>, None)
         \<and> map_of (run_samples (fst (process_sample w resubmit f st))) (basename f) =
             Some (r\<lparr>status := [(''crab status'', ''failed'')]\<rparr>)
         \<and> sample_loop w resubmit (f # rest) st =
             sample_loop w resubmit rest (fst (process_sample w resubmit f st))"
proof -
  from assms(1) have "\<forall>k<5. \<not> thissucces (read_log w f k)"
    by (simp add: thissucces_def)
  then have "retry_loop w f 0 (events st @ [Processing f]) =
      (None, (events st @ [Processing f]) @ replicate (5 - 0) (StatusCmd f))"
    by (rule retry_loop_exhausted)
  then have ps: "process_sample w resubmit f st =
           (\<lparr>run_samples = AList.update (basename f) (r\<lparr>status := [(''crab status'', ''failed'')]\<rparr>)
                             (run_samples st),
             events = events st @ Processing f # replicate 5 (StatusCmd f)\<rparr>, None)"
    using assms(2) by (simp add: process_sample_def set_failed_def)
  then show ?thesis
    by (simp add: update_conv')
qed

theorem retries_exhausted_witness:
  "list_all (\<lambda>k. length (filter (\<lambda>l. startswith l ''Jobs status:'')
        (read_log \<lparr>read_log = (\<lambda>f k. [''Jobs status: idle 50%'', ''Jobs status: idle 50%'']),
                   results_exist = (\<lambda>f. False), script_exists = (\<lambda>f. True)\<rparr>
           ''/sim/crab_logs/sampleA'' k)) \<noteq> 1) [0, 1, 2, 3, 4]
   \<and> process_sample \<lparr>read_log = (\<lambda>f k. [''Jobs status: idle 50%'', ''Jobs status: idle 50%'']),
                      results_exist = (\<lambda>f. False), script_exists = (\<lambda>f. True)\<rparr>
        False ''/sim/crab_logs/sampleA''
        \<lparr>run_samples = [(''sampleA'', \<lparr>status = [(''finished'', ''0%'')], grafana = Some []\<rparr>)],
         events = []\<rparr>
      = (\<lparr>run_samples = [(''sampleA'', \<lparr>status = [(''crab status'', ''failed'')], grafana = Some []\<rparr>)],
          events = [Processing ''/sim/crab_logs/sampleA'',
                    StatusCmd ''/sim/crab_logs/sampleA'', StatusCmd ''/sim/crab_logs/sampleA'',
                    StatusCmd ''/sim/crab_logs/sampleA'', StatusCmd ''/sim/crab_logs/sampleA'',
                    StatusCmd ''/sim/crab_logs/sampleA'']\<rparr>, None)"
proof -
  let ?w = "\<lparr>read_log = (\<lambda>f k. [''Jobs status: idle 50%'', ''Jobs status: idle 50%'']),
                   results_exist = (\<lambda>f. False), script_exists = (\<lambda>f. True)\<rparr>"
  let ?st = "\<lparr>run_samples = [(''sampleA'', \<lparr>status = [(''finished'', ''0%'')], grafana = Some []\<rparr>)],
         events = []\<rparr>"
  have h1: "\<forall>k<5. length (filter (\<lambda>l. startswith l ''Jobs status:'')
        (read_log ?w ''/sim/crab_logs/sampleA'' k)) \<noteq> 1"
    by (simp add: startswith_def)
  have bn: "basename ''/sim/crab_logs/sampleA'' = ''sampleA''"
    by (simp add: basename_def)
  have h2: "map_of (run_samples ?st) (basename ''/sim/crab_logs/sampleA'') =
      Some \<lparr>status = [(''finished'', ''0%'')], grafana = Some []\<rparr>"
    by (simp add: bn)
  show ?thesis
    using retries_exhausted [OF h1 h2, of False "[]"]
    by (simp add: bn numeral_eq_Suc startswith_def)
qed


lemma apply_statuses_Nil: "apply_statuses w0 frac [] s = s"
  by (simp add: apply_statuses_def)

lemma apply_statuses_Cons:
  "apply_statuses w0 frac (key # keys) s =
     apply_statuses w0 frac keys (if contains key w0 then AList.update key frac s else s)"
  by (simp add: apply_statuses_def)

lemma map_of_apply_statuses:
  "map_of (apply_statuses w0 frac keys s) k =
     (if k \<in> set keys \<and> contains k w0 then Some frac else map_of s k)"
  by (induction keys arbitrary: s) (auto simp: apply_statuses_Nil apply_statuses_Cons update_conv')

lemma keys_apply_statuses:
  "fst ` set (apply_statuses w0 frac keys s) = fst ` set s \<union> {k \<in> set keys. contains k w0}"
  by (induction keys arbitrary: s) (auto simp: apply_statuses_Nil apply_statuses_Cons dom_update)

lemma status_loop_result:
  "map_of sd name = Some r \<Longrightarrow>
   status_loop name w0 frac keys (sd, jf) =
     ((AList.update name (r\<lparr>status := apply_statuses w0 frac keys (status r)\<rparr>) sd,
       jf \<or> (''failed'' \<in> set keys \<and> contains ''failed'' w0)), None)"
proof (induction keys arbitrary: sd r jf)
  case Nil
  then show ?case by (simp add: apply_statuses_Nil update_triv)
next
  case (Cons key keys)
  show ?case
  proof (cases "contains key w0")
    case True
    let ?r1 = "r\<lparr>status := AList.update key frac (status r)\<rparr>"
    let ?sd1 = "AList.update name ?r1 sd"
    have m: "map_of ?sd1 name = Some ?r1" by (simp add: update_conv')
    show ?thesis
      using True Cons.prems Cons.IH [OF m]
      by (auto simp: set_status_def apply_statuses_Cons)
  next
    case False
    then show ?thesis
      using Cons.prems Cons.IH [OF Cons.prems] by (auto simp: apply_statuses_Cons)
  qed
qed

lemma status_loop_missing:
  "map_of sd name = None \<Longrightarrow> fst (fst (status_loop name w0 frac keys (sd, jf))) = sd"
  by (induction keys arbitrary: jf) (simp_all add: set_status_def)

lemma parse_line_shape:
  assumes "map_of sd name = Some r"
  shows "\<exists>g. fst (fst (parse_line name line0 (sd, jf))) =
           AList.update name (r\<lparr>status := line_statuses line0 (status r), grafana := g\<rparr>) sd"
proof (cases "str_split (str_replace ''Jobs status:'' [] line0)")
  case Nil
  have "fst (fst (parse_line name line0 (sd, jf))) = sd"
    using Nil by (simp add: parse_line_def)
  also have "sd = AList.update name (r\<lparr>status := line_statuses line0 (status r), grafana := grafana r\<rparr>) sd"
    using Nil assms by (simp add: line_statuses_def update_triv)
  finally show ?thesis by blast
next
  case (Cons w0 ws)
  let ?frac = "case ws of [] \<Rightarrow> ''<none>'' | w1 # _ \<Rightarrow> w1"
  let ?r1 = "r\<lparr>status := apply_statuses w0 ?frac job_statuses (status r)\<rparr>"
  let ?sd1 = "AList.update name ?r1 sd"
  have sl: "status_loop name w0 ?frac job_statuses (sd, jf) =
      ((?sd1, jf \<or> (''failed'' \<in> set job_statuses \<and> contains ''failed'' w0)), None)"
    using assms by (rule status_loop_result)
  have ls: "line_statuses line0 (status r) = apply_statuses w0 ?frac job_statuses (status r)"
    using Cons by (simp add: line_statuses_def)
  have m1: "map_of ?sd1 name = Some ?r1" by (simp add: update_conv')
  have "fst (fst (parse_line name line0 (sd, jf))) = ?sd1
        \<or> (\<exists>url. fst (fst (parse_line name line0 (sd, jf))) =
              AList.update name (?r1\<lparr>grafana := Some url\<rparr>) ?sd1)"
    using Cons sl m1 by (auto simp: parse_line_def Let_def set_grafana_def split: sum.splits)
  then show ?thesis
  proof
    assume "fst (fst (parse_line name line0 (sd, jf))) = ?sd1"
    then have "fst (fst (parse_line name line0 (sd, jf))) =
        AList.update name (r\<lparr>status := line_statuses line0 (status r), grafana := grafana r\<rparr>) sd"
      by (simp add: ls)
    then show ?thesis by blast
  next
    assume "\<exists>url. fst (fst (parse_line name line0 (sd, jf))) =
              AList.update name (?r1\<lparr>grafana := Some url\<rparr>) ?sd1"
    then obtain url where "fst (fst (parse_line name line0 (sd, jf))) =
        AList.update name (r\<lparr>status := line_statuses line0 (status r), grafana := Some url\<rparr>) sd"
      by (auto simp: ls)
    then show ?thesis by blast
  qed
qed

lemma parse_line_missing:
  assumes "map_of sd name = None"
  shows "fst (fst (parse_line name line0 (sd, jf))) = sd"
proof (cases "str_split (str_replace ''Jobs status:'' [] line0)")
  case Nil
  then show ?thesis by (simp add: parse_line_def)
next
  case (Cons w0 ws)
  let ?frac = "case ws of [] \<Rightarrow> ''<none>'' | w1 # _ \<Rightarrow> w1"
  obtain a b e where sl: "status_loop name w0 ?frac job_statuses (sd, jf) = ((a, b), e)"
    by (metis surj_pair)
  have "fst (fst (status_loop name w0 ?frac job_statuses (sd, jf))) = sd"
    using assms by (rule status_loop_missing)
  with sl have a: "a = sd" by simp
  show ?thesis
  proof (cases e)
    case None
    then show ?thesis
      using Cons sl a assms
      by (simp add: parse_line_def Let_def set_grafana_def split: sum.splits)
  next
    case (Some x)
    then show ?thesis
      using Cons sl a by (simp add: parse_line_def Let_def)
  qed
qed

text \<open>
  Claim C3, as the code has it. Let \<open>w0\<close> be the first and \<open>w1\<close> the second
  whitespace-separated word of a line from which every occurrence of \<open>Jobs status:\<close>
  has been removed. For each known job status that occurs in \<open>w0\<close> as a substring, the
  parser sets the entry of this status to \<open>w1\<close>, or to \<open><none>\<close> when the line has one
  word only; it leaves every other entry of the status mapping as it was, and a line
  with no word changes nothing.
\<close>

theorem parse_line_status:
  assumes "map_of sd name = Some r"
  shows "\<exists>r'. map_of (fst (fst (parse_line name line0 (sd, jobsfailed)))) name = Some r'
     \<and> (\<forall>k. map_of (status r') k =
          (case str_split (str_replace ''Jobs status:'' [] line0) of
             [] \<Rightarrow> map_of (status r) k
           | w0 # ws \<Rightarrow>
               if k \<in> set job_statuses \<and> contains k w0
               then Some (case ws of [] \<Rightarrow> ''<none>'' | w1 # _ \<Rightarrow> w1)
               else map_of (status r) k))"
proof -
  from parse_line_shape [OF assms] obtain g where
    "fst (fst (parse_line name line0 (sd, jobsfailed))) =
       AList.update name (r\<lparr>status := line_statuses line0 (status r), grafana := g\<rparr>) sd"
    by blast
  then have "map_of (fst (fst (parse_line name line0 (sd, jobsfailed)))) name =
      Some (r\<lparr>status := line_statuses line0 (status r), grafana := g\<rparr>)"
    by (simp add: update_conv')
  moreover have "\<forall>k. map_of (status (r\<lparr>status := line_statuses line0 (status r), grafana := g\<rparr>)) k =
          (case str_split (str_replace ''Jobs status:'' [] line0) of
             [] \<Rightarrow> map_of (status r) k
           | w0 # ws \<Rightarrow>
               if k \<in> set job_statuses \<and> contains k w0
               then Some (case ws of [] \<Rightarrow> ''<none>'' | w1 # _ \<Rightarrow> w1)
               else map_of (status r) k)"
    by (simp add: line_statuses_def map_of_apply_statuses split: list.splits)
  ultimately show ?thesis by blast
qed

theorem parse_line_status_witness:
  "map_of [(''sampleA'', \<lparr>status = [(''finished'', ''0%'')], grafana = Some []\<rparr>)] ''sampleA'' =
     Some \<lparr>status = [(''finished'', ''0%'')], grafana = Some []\<rparr>
   \<and> (\<exists>r'. map_of (fst (fst (parse_line ''sampleA'' ''Jobs status: finished 100%''
                ([(''sampleA'', \<lparr>status = [(''finished'', ''0%'')], grafana = Some []\<rparr>)], False))))
             ''sampleA'' = Some r'
          \<and> map_of (status r') ''finished'' = Some ''100%''
          \<and> map_of (status r') ''running'' = None)"
proof -
  let ?r = "\<lparr>status = [(''finished'', ''0%'')], grafana = Some []\<rparr>"
  have h: "map_of [(''sampleA'', ?r)] ''sampleA'' = Some ?r" by simp
  have w: "str_split (str_replace ''Jobs status:'' [] ''Jobs status: finished 100%'') =
      [''finished'', ''100%'']"
    by code_simp
  have c: "contains ''finished'' ''finished''" "\<not> contains ''running'' ''finished''"
    by code_simp+
  have j: "''finished'' \<in> set job_statuses" by (simp add: job_statuses_def)
  from parse_line_status [OF h, of "''Jobs status: finished 100%''" False]
  obtain r' where r1:
    "map_of (fst (fst (parse_line ''sampleA'' ''Jobs status: finished 100%''
        ([(''sampleA'', ?r)], False)))) ''sampleA'' = Some r'"
    and r2: "\<forall>k. map_of (status r') k =
        (case str_split (str_replace ''Jobs status:'' [] ''Jobs status: finished 100%'') of
           [] \<Rightarrow> map_of (status ?r) k
         | w0 # ws \<Rightarrow>
             if k \<in> set job_statuses \<and> contains k w0
             then Some (case ws of [] \<Rightarrow> ''<none>'' | w1 # _ \<Rightarrow> w1)
             else map_of (status ?r) k)"
    by blast
  have r': "\<And>k. map_of (status r') k =
        (if k \<in> set job_statuses \<and> contains k ''finished'' then Some ''100%''
         else map_of (status ?r) k)"
    using r2 unfolding w by simp
  have "map_of (status r') ''finished'' = Some ''100%''"
    using r' [of "''finished''"] c j by simp
  moreover have "map_of (status r') ''running'' = None"
    using r' [of "''running''"] c by simp
  ultimately show ?thesis using h r1 by blast
qed

text \<open>
  The claim as worded fails: the line \<open>unfinished 5%\<close> begins with none of the known job
  statuses, and yet gives the entry finished: 5%.
\<close>

theorem parse_line_status_counterexample:
  "\<not> list_ex (startswith ''unfinished 5%'') job_statuses
   \<and> parse_line ''sampleA'' ''unfinished 5%''
        ([(''sampleA'', \<lparr>status = [(''finished'', ''0%'')], grafana = Some []\<rparr>)], False) =
      (([(''sampleA'', \<lparr>status = [(''finished'', ''5%'')], grafana = Some []\<rparr>)], False), None)"
  by code_simp

text \<open>
  Claim C7. The claim says that parsing never raises. It does: a line that starts
  with \<open>Dashboard monitoring URL\<close> and has fewer than four words makes \<^verbatim>\<open>words[3]\<close>
  raise \<^verbatim>\<open>IndexError\<close>, which ends the run.
\<close>

theorem truncated_dashboard_line_raises:
  "snd (parse_lines ''sampleA'' [''Jobs status: finished 100%'', ''Dashboard monitoring URL:'']
          ([(''sampleA'', \<lparr>status = [(''finished'', ''0%'')], grafana = Some []\<rparr>)], False)) =
     Some IndexError
   \<and> snd (aggregate
          \<lparr>read_log = (\<lambda>f k. [''Jobs status: finished 100%'', ''Dashboard monitoring URL:'']),
           results_exist = (\<lambda>f. False), script_exists = (\<lambda>f. True)\<rparr>
          False False [''/sim/crab_logs/sampleA'']) = Some IndexError"
  by code_simp

text \<open>
  Claim C8. The claim says that a completed task without results is reported when any
  line of the log carries \<open>Status on the scheduler\<close> and \<open>COMPLETED\<close>. The check sits
  after the loop over the lines and reads the last line only: with the scheduler line
  first nothing is reported, with the same line last the message is printed.
\<close>

theorem completed_only_on_last_line:
  "aggregate
     \<lparr>read_log = (\<lambda>f k. [''Status on the scheduler: COMPLETED'', ''Jobs status: finished 100.0%'']),
      results_exist = (\<lambda>f. False), script_exists = (\<lambda>f. True)\<rparr>
     False False [''/sim/crab_logs/sampleA''] =
   (\<lparr>run_samples = [(''sampleA'', \<lparr>status = [(''finished'', ''100.0%'')], grafana = Some []\<rparr>)],
     events = [Processing ''/sim/crab_logs/sampleA'', StatusCmd ''/sim/crab_logs/sampleA'']\<rparr>, None)
   \<and> aggregate
     \<lparr>read_log = (\<lambda>f k. [''Jobs status: finished 100.0%'', ''Status on the scheduler: COMPLETED'']),
      results_exist = (\<lambda>f. False), script_exists = (\<lambda>f. True)\<rparr>
     False False [''/sim/crab_logs/sampleA''] =
   (\<lparr>run_samples = [(''sampleA'', \<lparr>status = [(''finished'', ''100.0%'')], grafana = Some []\<rparr>)],
     events = [Processing ''/sim/crab_logs/sampleA'', StatusCmd ''/sim/crab_logs/sampleA'',
               TaskCompleted]\<rparr>, None)"
  by code_simp

lemma extends_refl: "extends s s"
  by (auto simp: extends_def)

lemma subset_chain:
  "A \<subseteq> B \<Longrightarrow> B \<subseteq> A \<union> J \<Longrightarrow> B \<subseteq> C \<Longrightarrow> C \<subseteq> B \<union> J \<Longrightarrow> A \<subseteq> C \<and> C \<subseteq> A \<union> J"
  by blast

lemma extends_trans: "extends s s' \<Longrightarrow> extends s' s'' \<Longrightarrow> extends s s''"
  unfolding extends_def by (elim conjE) (rule subset_chain)

lemma extends_apply_statuses: "extends s (apply_statuses w0 frac job_statuses s)"
  unfolding extends_def keys_apply_statuses by blast

lemma extends_line_statuses: "extends s (line_statuses line0 s)"
proof (cases "str_split (str_replace ''Jobs status:'' [] line0)")
  case Nil
  then show ?thesis by (simp add: line_statuses_def extends_refl)
next
  case (Cons w0 ws)
  then show ?thesis by (simp add: line_statuses_def extends_apply_statuses)
qed

lemma parse_lines_shape:
  "map_of sd name = Some r \<Longrightarrow>
   \<exists>s' g. fst (fst (parse_lines name ls (sd, jf))) =
             AList.update name (r\<lparr>status := s', grafana := g\<rparr>) sd
          \<and> extends (status r) s'"
proof (induction ls arbitrary: sd r jf)
  case Nil
  have "fst (fst (parse_lines name [] (sd, jf))) =
      AList.update name (r\<lparr>status := status r, grafana := grafana r\<rparr>) sd"
    using Nil by (simp add: update_triv)
  moreover have "extends (status r) (status r)" by (rule extends_refl)
  ultimately show ?case
    by (intro exI [of _ "status r"] exI [of _ "grafana r"] conjI)
next
  case (Cons line0 ls)
  from parse_line_shape [OF Cons.prems, of line0 jf] obtain g where
    g: "fst (fst (parse_line name line0 (sd, jf))) =
          AList.update name (r\<lparr>status := line_statuses line0 (status r), grafana := g\<rparr>) sd"
    by blast
  let ?r1 = "r\<lparr>status := line_statuses line0 (status r), grafana := g\<rparr>"
  let ?sd1 = "AList.update name ?r1 sd"
  obtain a b e where pl: "parse_line name line0 (sd, jf) = ((a, b), e)"
    by (metis surj_pair)
  with g have a: "a = ?sd1" by simp
  have e1: "extends (status r) (status ?r1)"
    by (simp add: extends_line_statuses)
  show ?case
  proof (cases e)
    case (Some x)
    then have "fst (fst (parse_lines name (line0 # ls) (sd, jf))) =
        AList.update name (r\<lparr>status := status ?r1, grafana := g\<rparr>) sd"
      using pl a by simp
    then show ?thesis using e1
      by (intro exI [of _ "status ?r1"] exI [of _ g] conjI)
  next
    case None
    have m: "map_of ?sd1 name = Some ?r1" by (simp add: update_conv')
    from Cons.IH [OF m, of b] obtain s' g' where
      ih: "fst (fst (parse_lines name ls (?sd1, b))) =
             AList.update name (?r1\<lparr>status := s', grafana := g'\<rparr>) ?sd1"
          "extends (status ?r1) s'"
      by (elim exE conjE)
    have "fst (fst (parse_lines name (line0 # ls) (sd, jf))) =
        AList.update name (r\<lparr>status := s', grafana := g'\<rparr>) sd"
      using pl a None ih(1) by simp
    moreover have "extends (status r) s'"
      using e1 ih(2) by (rule extends_trans)
    ultimately show ?thesis
      by (intro exI [of _ s'] exI [of _ g'] conjI)
  qed
qed

lemma parse_lines_missing:
  "map_of sd name = None \<Longrightarrow> fst (fst (parse_lines name ls (sd, jf))) = sd"
proof (induction ls arbitrary: jf)
  case Nil
  then show ?case by simp
next
  case (Cons line0 ls)
  obtain a b e where pl: "parse_line name line0 (sd, jf) = ((a, b), e)"
    by (metis surj_pair)
  have "fst (fst (parse_line name line0 (sd, jf))) = sd"
    using Cons.prems by (rule parse_line_missing)
  with pl have a: "a = sd" by simp
  show ?case
    using pl a Cons.IH [OF Cons.prems, of b] by (cases e) simp_all
qed

lemma process_sample_shape:
  "(map_of (run_samples st) (basename f) = None
      \<and> run_samples (fst (process_sample w resubmit f st)) = run_samples st)
   \<or> (\<exists>r s' g. map_of (run_samples st) (basename f) = Some r
         \<and> run_samples (fst (process_sample w resubmit f st)) =
             AList.update (basename f) (r\<lparr>status := s', grafana := g\<rparr>) (run_samples st)
         \<and> (s' = [(''crab status'', ''failed'')] \<or> extends (status r) s'))"
proof -
  obtain res evs where rl: "retry_loop w f 0 (events st @ [Processing f]) = (res, evs)"
    by (metis surj_pair)
  show ?thesis
  proof (cases "map_of (run_samples st) (basename f)")
    case None
    show ?thesis
    proof (cases res)
      case n: None
      then show ?thesis using rl None by (simp add: process_sample_def set_failed_def)
    next
      case (Some outlines)
      obtain a b e where pl:
        "parse_lines (basename f) outlines (run_samples st, False) = ((a, b), e)"
        by (metis surj_pair)
      have "fst (fst (parse_lines (basename f) outlines (run_samples st, False))) = run_samples st"
        using None by (rule parse_lines_missing)
      with pl have "a = run_samples st" by simp
      then show ?thesis
        using rl Some pl None by (cases e) (simp_all add: process_sample_def Let_def)
    qed
  next
    case (Some r)
    show ?thesis
    proof (cases res)
      case None
      have "run_samples (fst (process_sample w resubmit f st)) =
          AList.update (basename f) (r\<lparr>status := [(''crab status'', ''failed'')], grafana := grafana r\<rparr>)
            (run_samples st)"
        using rl None Some by (simp add: process_sample_def set_failed_def)
      then have "\<exists>r s' g. map_of (run_samples st) (basename f) = Some r
         \<and> run_samples (fst (process_sample w resubmit f st)) =
             AList.update (basename f) (r\<lparr>status := s', grafana := g\<rparr>) (run_samples st)
         \<and> (s' = [(''crab status'', ''failed'')] \<or> extends (status r) s')"
        using Some
        by (intro exI [of _ r] exI [of _ "[(''crab status'', ''failed'')]"] exI [of _ "grafana r"] conjI disjI1 refl)
      then show ?thesis by (rule disjI2)
    next
      case s: (Some outlines)
      obtain a b e where pl:
        "parse_lines (basename f) outlines (run_samples st, False) = ((a, b), e)"
        by (metis surj_pair)
      from parse_lines_shape [OF Some, of outlines False] obtain s' g where
        sh: "fst (fst (parse_lines (basename f) outlines (run_samples st, False))) =
               AList.update (basename f) (r\<lparr>status := s', grafana := g\<rparr>) (run_samples st)"
            "extends (status r) s'"
        by (elim exE conjE)
      from sh(1) pl have a: "a = AList.update (basename f) (r\<lparr>status := s', grafana := g\<rparr>) (run_samples st)"
        by simp
      have "run_samples (fst (process_sample w resubmit f st)) = a"
        using rl s pl by (cases e) (simp_all add: process_sample_def Let_def)
      then have "\<exists>r s' g. map_of (run_samples st) (basename f) = Some r
         \<and> run_samples (fst (process_sample w resubmit f st)) =
             AList.update (basename f) (r\<lparr>status := s', grafana := g\<rparr>) (run_samples st)
         \<and> (s' = [(''crab status'', ''failed'')] \<or> extends (status r) s')"
        using Some a sh(2)
        by (intro exI [of _ r] exI [of _ s'] exI [of _ g] conjI disjI2) simp_all
      then show ?thesis by (rule disjI2)
    qed
  qed
qed

lemma set_update_subset: "set (AList.update k v al) \<subseteq> insert (k, v) (set al)"
  by (induction al) auto

lemma update_preserves:
  assumes "\<And>n x. (n, x) \<in> set sd \<Longrightarrow> Q x" and "Q v" and "(n, x) \<in> set (AList.update k v sd)"
  shows "Q x"
proof -
  from assms(3) set_update_subset [of k v sd] have "(n, x) = (k, v) \<or> (n, x) \<in> set sd"
    by auto
  then show ?thesis using assms(1,2) by auto
qed

lemma process_sample_preserves:
  assumes inv: "\<And>n x. (n, x) \<in> set (run_samples st) \<Longrightarrow> Q x"
    and step: "\<And>r s' g. map_of (run_samples st) (basename f) = Some r \<Longrightarrow>
                 s' = [(''crab status'', ''failed'')] \<or> extends (status r) s' \<Longrightarrow>
                 Q (r\<lparr>status := s', grafana := g\<rparr>)"
    and mem: "(n, x) \<in> set (run_samples (fst (process_sample w resubmit f st)))"
  shows "Q x"
proof -
  from process_sample_shape [of st f w resubmit]
  show ?thesis
  proof
    assume "map_of (run_samples st) (basename f) = None
      \<and> run_samples (fst (process_sample w resubmit f st)) = run_samples st"
    with mem inv show ?thesis by simp
  next
    assume "\<exists>r s' g. map_of (run_samples st) (basename f) = Some r
         \<and> run_samples (fst (process_sample w resubmit f st)) =
             AList.update (basename f) (r\<lparr>status := s', grafana := g\<rparr>) (run_samples st)
         \<and> (s' = [(''crab status'', ''failed'')] \<or> extends (status r) s')"
    then obtain r s' g where
      m: "map_of (run_samples st) (basename f) = Some r"
      and u: "run_samples (fst (process_sample w resubmit f st)) =
             AList.update (basename f) (r\<lparr>status := s', grafana := g\<rparr>) (run_samples st)"
      and c: "s' = [(''crab status'', ''failed'')] \<or> extends (status r) s'"
      by (elim exE conjE)
    have q: "Q (r\<lparr>status := s', grafana := g\<rparr>)" using m c by (rule step)
    from mem have "(n, x) \<in> set (AList.update (basename f) (r\<lparr>status := s', grafana := g\<rparr>) (run_samples st))"
      by (simp only: u)
    with inv q show ?thesis by (rule update_preserves)
  qed
qed

lemma keys_allowed_step:
  assumes "keys_allowed r" and "s' = [(''crab status'', ''failed'')] \<or> extends (status r) s'"
  shows "keys_allowed (r\<lparr>status := s', grafana := g\<rparr>)"
  using assms(2)
proof
  assume "s' = [(''crab status'', ''failed'')]"
  then show ?thesis by (simp add: keys_allowed_def)
next
  assume "extends (status r) s'"
  then have "fst ` set s' \<subseteq> fst ` set (status r) \<union> set job_statuses"
    by (simp add: extends_def)
  moreover have "fst ` set (status r) \<subseteq> set job_statuses \<union> {''crab status''}"
    using assms(1) by (simp add: keys_allowed_def)
  ultimately have "fst ` set s' \<subseteq> set job_statuses \<union> {''crab status''}"
    by (meson Un_least Un_upper1 subset_trans)
  then show ?thesis by (simp add: keys_allowed_def)
qed

lemma process_sample_keys:
  assumes "\<And>n x. (n, x) \<in> set (run_samples st) \<Longrightarrow> keys_allowed x"
    and "(n, x) \<in> set (run_samples (fst (process_sample w resubmit f st)))"
  shows "keys_allowed x"
proof (rule process_sample_preserves [where Q = keys_allowed, OF _ _ assms(2)])
  fix n x assume "(n, x) \<in> set (run_samples st)"
  then show "keys_allowed x" by (rule assms(1))
next
  fix r s' g
  assume m: "map_of (run_samples st) (basename f) = Some r"
    and c: "s' = [(''crab status'', ''failed'')] \<or> extends (status r) s'"
  from m have "(basename f, r) \<in> set (run_samples st)" by (rule map_of_SomeD)
  then have "keys_allowed r" by (rule assms(1))
  then show "keys_allowed (r\<lparr>status := s', grafana := g\<rparr>)" using c by (rule keys_allowed_step)
qed

lemma sample_loop_keys:
  "(\<And>n x. (n, x) \<in> set (run_samples st) \<Longrightarrow> keys_allowed x) \<Longrightarrow>
   (n, x) \<in> set (run_samples (fst (sample_loop w resubmit fs st))) \<Longrightarrow> keys_allowed x"
proof (induction fs arbitrary: st)
  case Nil
  then show ?case by simp
next
  case (Cons f fs)
  obtain st' e where ps: "process_sample w resubmit f st = (st', e)"
    by (cases "process_sample w resubmit f st")
  have k': "\<And>n x. (n, x) \<in> set (run_samples st') \<Longrightarrow> keys_allowed x"
  proof -
    fix n x assume "(n, x) \<in> set (run_samples st')"
    then have "(n, x) \<in> set (run_samples (fst (process_sample w resubmit f st)))"
      by (simp add: ps)
    with Cons.prems(1) show "keys_allowed x" by (rule process_sample_keys)
  qed
  show ?case
  proof (cases e)
    case None
    with Cons.prems(2) ps have "(n, x) \<in> set (run_samples (fst (sample_loop w resubmit fs st')))"
      by simp
    with k' show ?thesis by (rule Cons.IH)
  next
    case (Some err)
    with Cons.prems(2) ps have "(n, x) \<in> set (run_samples st')" by simp
    then show ?thesis by (rule k')
  qed
qed

lemma init_fold_records:
  "(\<And>n x. (n, x) \<in> set acc \<Longrightarrow> x = initial_rec) \<Longrightarrow>
   (n, x) \<in> set (foldl (\<lambda>sd f. AList.update (basename f) initial_rec sd) acc fs) \<Longrightarrow>
   x = initial_rec"
proof (induction fs arbitrary: acc)
  case Nil
  then show ?case by simp
next
  case (Cons f fs)
  have u: "\<And>n x. (n, x) \<in> set (AList.update (basename f) initial_rec acc) \<Longrightarrow> x = initial_rec"
    using Cons.prems(1) by (rule update_preserves [where Q = "\<lambda>x. x = initial_rec"]) simp_all
  from Cons.prems(2) have
    "(n, x) \<in> set (foldl (\<lambda>sd f. AList.update (basename f) initial_rec sd)
        (AList.update (basename f) initial_rec acc) fs)"
    by simp
  with u show ?case by (rule Cons.IH)
qed

lemma init_fold_lookup:
  "map_of (foldl (\<lambda>sd f. AList.update (basename f) initial_rec sd) acc fs) k =
     (if k \<in> basename ` set fs then Some initial_rec else map_of acc k)"
  by (induction fs arbitrary: acc) (auto simp: update_conv')

lemma init_samples_records: "(n, x) \<in> set (init_samples fproc) \<Longrightarrow> x = initial_rec"
  unfolding init_samples_def initial_rec_def [symmetric]
  by (rule init_fold_records [of "[]"]) simp_all

lemma init_samples_lookup:
  "f \<in> set fproc \<Longrightarrow> map_of (init_samples fproc) (basename f) = Some initial_rec"
  unfolding init_samples_def initial_rec_def [symmetric]
  by (simp add: init_fold_lookup)

lemma init_samples_keys: "fst ` set (init_samples fproc) = basename ` set fproc"
proof -
  have "\<And>k. (map_of (init_samples fproc) k \<noteq> None) = (k \<in> basename ` set fproc)"
    unfolding init_samples_def initial_rec_def [symmetric]
    by (simp add: init_fold_lookup)
  then show ?thesis
    by (auto simp: map_of_eq_None_iff)
qed

lemma keys_allowed_initial: "keys_allowed initial_rec"
  by (simp add: keys_allowed_def initial_rec_def job_statuses_def)

lemma aggregate_cases:
  "fst (aggregate w test resubmit found) = \<lparr>run_samples = [], events = []\<rparr>
   \<or> aggregate w test resubmit found =
       sample_loop w resubmit (select_samples test found)
         \<lparr>run_samples = init_samples (select_samples test found), events = []\<rparr>"
  by (simp add: aggregate_def Let_def split: list.splits)

lemma pending_okD:
  "pending_ok sd fs \<Longrightarrow> f \<in> set fs \<Longrightarrow>
   \<exists>r. map_of sd (basename f) = Some r \<and> ''finished'' \<in> fst ` set (status r)"
  unfolding pending_ok_def list_all_iff
  by (cases "map_of sd (basename f)") (fastforce, fastforce)

lemma pending_okI:
  assumes "\<And>f. f \<in> set fs \<Longrightarrow>
     \<exists>r. map_of sd (basename f) = Some r \<and> ''finished'' \<in> fst ` set (status r)"
  shows "pending_ok sd fs"
  unfolding pending_ok_def list_all_iff
proof
  fix f assume "f \<in> set fs"
  then obtain r where "map_of sd (basename f) = Some r" "''finished'' \<in> fst ` set (status r)"
    using assms by (elim meta_allE [of _ f] meta_impE exE conjE)
  then show "case map_of sd (basename f) of None \<Rightarrow> False
      | Some r \<Rightarrow> ''finished'' \<in> fst ` set (status r)"
    by simp
qed

lemma failed_or_finished_step:
  assumes "''finished'' \<in> fst ` set (status r)"
    and "s' = [(''crab status'', ''failed'')] \<or> extends (status r) s'"
  shows "failed_or_finished (r\<lparr>status := s', grafana := g\<rparr>)"
  using assms(2)
proof
  assume "s' = [(''crab status'', ''failed'')]"
  then show ?thesis by (simp add: failed_or_finished_def)
next
  assume "extends (status r) s'"
  then have "fst ` set (status r) \<subseteq> fst ` set s'" by (simp add: extends_def)
  with assms(1) have "''finished'' \<in> fst ` set s'" by (rule rev_subsetD)
  then show ?thesis by (simp add: failed_or_finished_def)
qed

lemma process_sample_ff:
  assumes inv: "\<And>n x. (n, x) \<in> set (run_samples st) \<Longrightarrow> failed_or_finished x"
    and pend: "pending_ok (run_samples st) (f # rest)"
    and mem: "(n, x) \<in> set (run_samples (fst (process_sample w resubmit f st)))"
  shows "failed_or_finished x"
proof (rule process_sample_preserves [where Q = failed_or_finished, OF _ _ mem])
  fix n x assume "(n, x) \<in> set (run_samples st)"
  then show "failed_or_finished x" by (rule inv)
next
  fix r s' g
  assume m: "map_of (run_samples st) (basename f) = Some r"
    and c: "s' = [(''crab status'', ''failed'')] \<or> extends (status r) s'"
  from pend have "\<exists>r. map_of (run_samples st) (basename f) = Some r
      \<and> ''finished'' \<in> fst ` set (status r)"
    by (rule pending_okD) simp
  with m have "''finished'' \<in> fst ` set (status r)" by auto
  then show "failed_or_finished (r\<lparr>status := s', grafana := g\<rparr>)"
    using c by (rule failed_or_finished_step)
qed

lemma process_sample_pending:
  assumes dist: "distinct (map basename (f # rest))"
    and pend: "pending_ok (run_samples st) (f # rest)"
  shows "pending_ok (run_samples (fst (process_sample w resubmit f st))) rest"
proof (rule pending_okI)
  fix f' assume f': "f' \<in> set rest"
  from dist have notin: "basename f \<notin> basename ` set rest" by simp
  from f' have "basename f' \<in> basename ` set rest" by (rule imageI)
  with notin have ne: "basename f' \<noteq> basename f" by (metis)
  from pend have old: "\<exists>r. map_of (run_samples st) (basename f') = Some r
      \<and> ''finished'' \<in> fst ` set (status r)"
    by (rule pending_okD) (simp add: f')
  have "map_of (run_samples (fst (process_sample w resubmit f st))) (basename f') =
      map_of (run_samples st) (basename f')"
    using process_sample_shape [of st f w resubmit] ne
    by (auto simp: update_conv')
  with old show "\<exists>r. map_of (run_samples (fst (process_sample w resubmit f st))) (basename f') = Some r
      \<and> ''finished'' \<in> fst ` set (status r)"
    by simp
qed

lemma sample_loop_ff:
  "distinct (map basename fs) \<Longrightarrow> pending_ok (run_samples st) fs \<Longrightarrow>
   (\<And>n x. (n, x) \<in> set (run_samples st) \<Longrightarrow> failed_or_finished x) \<Longrightarrow>
   (n, x) \<in> set (run_samples (fst (sample_loop w resubmit fs st))) \<Longrightarrow> failed_or_finished x"
proof (induction fs arbitrary: st)
  case Nil
  then show ?case by simp
next
  case (Cons f fs)
  obtain st' e where ps: "process_sample w resubmit f st = (st', e)"
    by (cases "process_sample w resubmit f st")
  have st': "st' = fst (process_sample w resubmit f st)" by (simp add: ps)
  have ff': "\<And>n x. (n, x) \<in> set (run_samples st') \<Longrightarrow> failed_or_finished x"
    unfolding st' using Cons.prems(3,2) by (rule process_sample_ff)
  have pend': "pending_ok (run_samples st') fs"
    unfolding st' using Cons.prems(1,2) by (rule process_sample_pending)
  from Cons.prems(1) have dist': "distinct (map basename fs)" by simp
  show ?case
  proof (cases e)
    case None
    with Cons.prems(4) ps have "(n, x) \<in> set (run_samples (fst (sample_loop w resubmit fs st')))"
      by simp
    with dist' pend' ff' show ?thesis by (rule Cons.IH)
  next
    case (Some err)
    with Cons.prems(4) ps have "(n, x) \<in> set (run_samples st')" by simp
    then show ?thesis by (rule ff')
  qed
qed

lemma failed_or_finished_initial: "failed_or_finished initial_rec"
  by (simp add: failed_or_finished_def initial_rec_def)

lemma pending_ok_init: "pending_ok (init_samples fproc) fproc"
proof (rule pending_okI)
  fix f assume "f \<in> set fproc"
  then have "map_of (init_samples fproc) (basename f) = Some initial_rec"
    by (rule init_samples_lookup)
  moreover have "''finished'' \<in> fst ` set (status initial_rec)"
    by (simp add: initial_rec_def)
  ultimately show "\<exists>r. map_of (init_samples fproc) (basename f) = Some r
      \<and> ''finished'' \<in> fst ` set (status r)"
    by simp
qed

lemma distinct_map_insort_key:
  "distinct (map g (insort_key k x ys)) = (g x \<notin> g ` set ys \<and> distinct (map g ys))"
  by (induction ys) (auto simp: set_insort_key)

lemma distinct_map_sort_key: "distinct (map g (sort_key k xs)) = distinct (map g xs)"
  by (induction xs) (simp_all add: distinct_map_insort_key)

lemma distinct_map_select:
  "distinct (map basename found) \<Longrightarrow> distinct (map basename (select_samples test found))"
  by (simp add: select_samples_def Let_def distinct_map_sort_key distinct_take flip: take_map)

text \<open>
  Claim C5, as the code has it. After any number of samples of the loop, and when the
  main section has ended or raised, the keys of every status mapping are known job
  statuses or the key \<open>crab status\<close> of the failure entry.
\<close>

theorem status_keys_allowed:
  "(\<forall>(name, r) \<in> set (run_samples (fst (sample_loop w resubmit fs
        \<lparr>run_samples = init_samples fproc, events = []\<rparr>))).
      fst ` set (status r) \<subseteq> set job_statuses \<union> {''crab status''})
   \<and> (\<forall>(name, r) \<in> set (run_samples (fst (aggregate w test resubmit found))).
      fst ` set (status r) \<subseteq> set job_statuses \<union> {''crab status''})"
proof -
  have loop: "\<And>fs fproc n x.
      (n, x) \<in> set (run_samples (fst (sample_loop w resubmit fs
        \<lparr>run_samples = init_samples fproc, events = []\<rparr>))) \<Longrightarrow> keys_allowed x"
  proof -
    fix fs fproc n x
    assume mem: "(n, x) \<in> set (run_samples (fst (sample_loop w resubmit fs
        \<lparr>run_samples = init_samples fproc, events = []\<rparr>)))"
    have "\<And>n x. (n, x) \<in> set (run_samples \<lparr>run_samples = init_samples fproc, events = []\<rparr>)
        \<Longrightarrow> keys_allowed x"
      using init_samples_records keys_allowed_initial by fastforce
    then show "keys_allowed x" using mem by (rule sample_loop_keys)
  qed
  have agg: "\<And>n x. (n, x) \<in> set (run_samples (fst (aggregate w test resubmit found)))
      \<Longrightarrow> keys_allowed x"
  proof -
    fix n x
    assume mem: "(n, x) \<in> set (run_samples (fst (aggregate w test resubmit found)))"
    from aggregate_cases [of w test resubmit found] show "keys_allowed x"
    proof
      assume "fst (aggregate w test resubmit found) = \<lparr>run_samples = [], events = []\<rparr>"
      with mem show ?thesis by simp
    next
      assume "aggregate w test resubmit found =
        sample_loop w resubmit (select_samples test found)
          \<lparr>run_samples = init_samples (select_samples test found), events = []\<rparr>"
      with mem show ?thesis using loop by simp
    qed
  qed
  show ?thesis
    using loop agg unfolding keys_allowed_def by fast
qed


theorem status_keys_allowed_witness:
  "list_all (\<lambda>(name, r). list_all (\<lambda>k. k \<in> set job_statuses \<union> {''crab status''}) (map fst (status r)))
     (run_samples (fst (aggregate
        \<lparr>read_log = (\<lambda>f k. [''Jobs status: running 50.0%'']),
         results_exist = (\<lambda>f. False), script_exists = (\<lambda>f. True)\<rparr>
        False False [''/sim/crab_logs/sampleA''])))"
proof -
  let ?A = "aggregate
        \<lparr>read_log = (\<lambda>f k. [''Jobs status: running 50.0%'']),
         results_exist = (\<lambda>f. False), script_exists = (\<lambda>f. True)\<rparr>
        False False [''/sim/crab_logs/sampleA'']"
  have "\<forall>(name, r) \<in> set (run_samples (fst ?A)).
      fst ` set (status r) \<subseteq> set job_statuses \<union> {''crab status''}"
    using status_keys_allowed [of _ False "[]" "[]" False "[''/sim/crab_logs/sampleA'']"]
    by (rule conjunct2)
  then show ?thesis
    unfolding list_all_iff by fastforce
qed

text \<open>
  The claim as worded fails: a sample whose status command never passes the test gets
  the key \<open>crab status\<close>, which is not a known job status.
\<close>

theorem status_keys_counterexample:
  "aggregate
     \<lparr>read_log = (\<lambda>f k. []), results_exist = (\<lambda>f. False), script_exists = (\<lambda>f. True)\<rparr>
     False False [''/sim/crab_logs/sampleA''] =
   (\<lparr>run_samples = [(''sampleA'', \<lparr>status = [(''crab status'', ''failed'')], grafana = Some []\<rparr>)],
     events = [Processing ''/sim/crab_logs/sampleA'',
               StatusCmd ''/sim/crab_logs/sampleA'', StatusCmd ''/sim/crab_logs/sampleA'',
               StatusCmd ''/sim/crab_logs/sampleA'', StatusCmd ''/sim/crab_logs/sampleA'',
               StatusCmd ''/sim/crab_logs/sampleA'']\<rparr>, None)
   \<and> ''crab status'' \<notin> set job_statuses"
  by code_simp

text \<open>
  Claim C10, as the code has it. When no two sample directories have the same base
  name, every status mapping after the main section either is exactly
  \<open>{'crab status': 'failed'}\<close> or holds the key \<open>finished\<close>.
\<close>

theorem finished_or_failed:
  assumes "distinct (map basename found)"
  shows "\<forall>(name, r) \<in> set (run_samples (fst (aggregate w test resubmit found))).
      status r = [(''crab status'', ''failed'')] \<or> ''finished'' \<in> fst ` set (status r)"
proof -
  have "\<And>n x. (n, x) \<in> set (run_samples (fst (aggregate w test resubmit found)))
      \<Longrightarrow> failed_or_finished x"
  proof -
    fix n x
    assume mem: "(n, x) \<in> set (run_samples (fst (aggregate w test resubmit found)))"
    let ?fproc = "select_samples test found"
    from aggregate_cases [of w test resubmit found] show "failed_or_finished x"
    proof
      assume "fst (aggregate w test resubmit found) = \<lparr>run_samples = [], events = []\<rparr>"
      with mem show ?thesis by simp
    next
      assume "aggregate w test resubmit found =
        sample_loop w resubmit ?fproc \<lparr>run_samples = init_samples ?fproc, events = []\<rparr>"
      with mem have mem': "(n, x) \<in> set (run_samples (fst (sample_loop w resubmit ?fproc
          \<lparr>run_samples = init_samples ?fproc, events = []\<rparr>)))"
        by simp
      have d: "distinct (map basename ?fproc)" using assms by (rule distinct_map_select)
      have p: "pending_ok (run_samples \<lparr>run_samples = init_samples ?fproc, events = []\<rparr>) ?fproc"
        by (simp add: pending_ok_init)
      have i: "\<And>n x. (n, x) \<in> set (run_samples \<lparr>run_samples = init_samples ?fproc, events = []\<rparr>)
          \<Longrightarrow> failed_or_finished x"
        using init_samples_records failed_or_finished_initial by fastforce
      from d p i mem' show ?thesis by (rule sample_loop_ff)
    qed
  qed
  then show ?thesis unfolding failed_or_finished_def by fast
qed

theorem finished_or_failed_witness:
  "distinct (map basename [''/sim/crab_logs/sampleA''])
   \<and> list_all (\<lambda>(name, r). status r = [(''crab status'', ''failed'')]
                             \<or> ''finished'' \<in> fst ` set (status r))
       (run_samples (fst (aggregate
          \<lparr>read_log = (\<lambda>f k. [''Jobs status: running 50.0%'']),
           results_exist = (\<lambda>f. False), script_exists = (\<lambda>f. True)\<rparr>
          False False [''/sim/crab_logs/sampleA''])))
   \<and> run_samples (fst (aggregate
          \<lparr>read_log = (\<lambda>f k. [''Jobs status: running 50.0%'']),
           results_exist = (\<lambda>f. False), script_exists = (\<lambda>f. True)\<rparr>
          False False [''/sim/crab_logs/sampleA''])) =
       [(''sampleA'', \<lparr>status = [(''finished'', ''0%''), (''running'', ''50.0%'')], grafana = Some []\<rparr>)]"
proof -
  let ?A = "aggregate
          \<lparr>read_log = (\<lambda>f k. [''Jobs status: running 50.0%'']),
           results_exist = (\<lambda>f. False), script_exists = (\<lambda>f. True)\<rparr>
          False False [''/sim/crab_logs/sampleA'']"
  have d: "distinct (map basename [''/sim/crab_logs/sampleA''])" by simp
  have "\<forall>(name, r) \<in> set (run_samples (fst ?A)).
      status r = [(''crab status'', ''failed'')] \<or> ''finished'' \<in> fst ` set (status r)"
    using d by (rule finished_or_failed)
  then have l: "list_all (\<lambda>(name, r). status r = [(''crab status'', ''failed'')]
                             \<or> ''finished'' \<in> fst ` set (status r)) (run_samples (fst ?A))"
    unfolding list_all_iff .
  have e: "run_samples (fst ?A) =
       [(''sampleA'', \<lparr>status = [(''finished'', ''0%''), (''running'', ''50.0%'')], grafana = Some []\<rparr>)]"
    by code_simp
  from d l e show ?thesis by (intro conjI)
qed

text \<open>
  The claim as worded fails when two sample directories share their base name and so
  their record: the first is marked as failed, the second is polled with success and
  adds its entries to the failure entry.
\<close>

theorem finished_or_failed_counterexample:
  "aggregate
     \<lparr>read_log = (\<lambda>f k. if f = ''/a/crab_logs/s'' then [] else [''Jobs status: running 50.0%'']),
      results_exist = (\<lambda>f. False), script_exists = (\<lambda>f. True)\<rparr>
     False False [''/b/crab_logs/s'', ''/a/crab_logs/s''] =
   (\<lparr>run_samples =
       [(''s'', \<lparr>status = [(''crab status'', ''failed''), (''running'', ''50.0%'')],
                grafana = Some []\<rparr>)],
     events = [Processing ''/a/crab_logs/s'',
               StatusCmd ''/a/crab_logs/s'', StatusCmd ''/a/crab_logs/s'',
               StatusCmd ''/a/crab_logs/s'', StatusCmd ''/a/crab_logs/s'',
               StatusCmd ''/a/crab_logs/s'',
               Processing ''/b/crab_logs/s'', StatusCmd ''/b/crab_logs/s'']\<rparr>, None)"
  by code_simp

lemma polled_append: "polled (a @ b) = polled a @ polled b"
  by (induction a rule: polled.induct) simp_all

lemma polled_replicate: "polled (replicate n (StatusCmd f)) = []"
  by (induction n) simp_all

lemma process_sample_polled:
  "polled (events (fst (process_sample w resubmit f st))) = polled (events st) @ [f]"
proof -
  obtain res evs where rl: "retry_loop w f 0 (events st @ [Processing f]) = (res, evs)"
    by (cases "retry_loop w f 0 (events st @ [Processing f])")
  from retry_loop_events [of 0 w f "events st @ [Processing f]"] rl
  obtain n where "evs = (events st @ [Processing f]) @ replicate n (StatusCmd f)"
    by auto
  then have pe: "polled evs = polled (events st) @ [f]"
    by (simp add: polled_append polled_replicate)
  show ?thesis
  proof (cases res)
    case None
    then show ?thesis
      using rl pe by (simp add: process_sample_def split: sum.splits)
  next
    case (Some outlines)
    obtain a b e where pl:
      "parse_lines (basename f) outlines (run_samples st, False) = ((a, b), e)"
      by (metis surj_pair)
    show ?thesis
      using rl Some pl pe
      by (cases e) (simp_all add: process_sample_def Let_def polled_append)
  qed
qed

lemma sample_loop_polled:
  "snd (sample_loop w resubmit fs st) = None \<Longrightarrow>
   polled (events (fst (sample_loop w resubmit fs st))) = polled (events st) @ fs"
proof (induction fs arbitrary: st)
  case Nil
  then show ?case by simp
next
  case (Cons f fs)
  obtain st' e where ps: "process_sample w resubmit f st = (st', e)"
    by (cases "process_sample w resubmit f st")
  have p': "polled (events st') = polled (events st) @ [f]"
    using process_sample_polled [of w resubmit f st] ps by simp
  show ?case
  proof (cases e)
    case None
    with Cons.prems ps have "snd (sample_loop w resubmit fs st') = None" by simp
    then have "polled (events (fst (sample_loop w resubmit fs st'))) = polled (events st') @ fs"
      by (rule Cons.IH)
    then show ?thesis using ps None p' by simp
  next
    case (Some err)
    with Cons.prems ps show ?thesis by simp
  qed
qed

lemma process_sample_dom:
  "fst ` set (run_samples (fst (process_sample w resubmit f st))) = fst ` set (run_samples st)"
proof -
  from process_sample_shape [of st f w resubmit] show ?thesis
  proof
    assume "map_of (run_samples st) (basename f) = None
      \<and> run_samples (fst (process_sample w resubmit f st)) = run_samples st"
    then show ?thesis by simp
  next
    assume "\<exists>r s' g. map_of (run_samples st) (basename f) = Some r
         \<and> run_samples (fst (process_sample w resubmit f st)) =
             AList.update (basename f) (r\<lparr>status := s', grafana := g\<rparr>) (run_samples st)
         \<and> (s' = [(''crab status'', ''failed'')] \<or> extends (status r) s')"
    then obtain r s' g where
      m: "map_of (run_samples st) (basename f) = Some r"
      and u: "run_samples (fst (process_sample w resubmit f st)) =
             AList.update (basename f) (r\<lparr>status := s', grafana := g\<rparr>) (run_samples st)"
      by (elim exE conjE)
    from m have "(basename f, r) \<in> set (run_samples st)" by (rule map_of_SomeD)
    then have "basename f \<in> fst ` set (run_samples st)" by (rule image_eqI [rotated]) simp
    then show ?thesis unfolding u dom_update by (simp add: insert_absorb)
  qed
qed

lemma sample_loop_dom:
  "fst ` set (run_samples (fst (sample_loop w resubmit fs st))) = fst ` set (run_samples st)"
proof (induction fs arbitrary: st)
  case Nil
  then show ?case by simp
next
  case (Cons f fs)
  obtain st' e where ps: "process_sample w resubmit f st = (st', e)"
    by (cases "process_sample w resubmit f st")
  have d': "fst ` set (run_samples st') = fst ` set (run_samples st)"
    using process_sample_dom [of w resubmit f st] ps by simp
  show ?case
    using ps d' Cons.IH [of st'] by (cases e) simp_all
qed

lemma select_samples_eq:
  "select_samples test found = (if test then take 3 (sort found) else sort found)"
  by (simp add: select_samples_def Let_def min_def)

lemma aggregate_ok:
  "snd (aggregate w test resubmit found) = None \<Longrightarrow>
   aggregate w test resubmit found =
     sample_loop w resubmit (select_samples test found)
       \<lparr>run_samples = init_samples (select_samples test found), events = []\<rparr>"
  by (simp add: aggregate_def Let_def split: list.splits if_splits)

lemma sample_loop_polled_prefix:
  "\<exists>n. polled (events (fst (sample_loop w resubmit fs st))) = polled (events st) @ take n fs"
proof (induction fs arbitrary: st)
  case Nil
  then show ?case by simp
next
  case (Cons f fs)
  obtain st' e where ps: "process_sample w resubmit f st = (st', e)"
    by (cases "process_sample w resubmit f st")
  have p': "polled (events st') = polled (events st) @ [f]"
    using process_sample_polled [of w resubmit f st] ps by simp
  show ?case
  proof (cases e)
    case None
    from Cons.IH [of st'] obtain n where
      "polled (events (fst (sample_loop w resubmit fs st'))) = polled (events st') @ take n fs"
      by (elim exE)
    then have "polled (events (fst (sample_loop w resubmit (f # fs) st))) =
        polled (events st) @ take (Suc n) (f # fs)"
      using ps None p' by simp
    then show ?thesis by (rule exI)
  next
    case (Some err)
    then have "polled (events (fst (sample_loop w resubmit (f # fs) st))) =
        polled (events st) @ take (Suc 0) (f # fs)"
      using ps p' by simp
    then show ?thesis by (rule exI)
  qed
qed

lemma aggregate_polled_prefix:
  "\<exists>n. polled (events (fst (aggregate w test resubmit found))) =
        take n (select_samples test found)"
proof -
  let ?fproc = "select_samples test found"
  from aggregate_cases [of w test resubmit found] show ?thesis
  proof
    assume "fst (aggregate w test resubmit found) = \<lparr>run_samples = [], events = []\<rparr>"
    then have "polled (events (fst (aggregate w test resubmit found))) = take 0 ?fproc"
      by simp
    then show ?thesis by (rule exI)
  next
    assume a: "aggregate w test resubmit found =
      sample_loop w resubmit ?fproc \<lparr>run_samples = init_samples ?fproc, events = []\<rparr>"
    from sample_loop_polled_prefix [of w resubmit ?fproc
        "\<lparr>run_samples = init_samples ?fproc, events = []\<rparr>"]
    obtain n where "polled (events (fst (sample_loop w resubmit ?fproc
        \<lparr>run_samples = init_samples ?fproc, events = []\<rparr>))) =
        polled (events \<lparr>run_samples = init_samples ?fproc, events = []\<rparr>) @ take n ?fproc"
      by (elim exE)
    then have "polled (events (fst (aggregate w test resubmit found))) = take n ?fproc"
      using a by simp
    then show ?thesis by (rule exI)
  qed
qed

lemma aggregate_polled_all:
  assumes "snd (aggregate w test resubmit found) = None"
  shows "polled (events (fst (aggregate w test resubmit found))) = select_samples test found"
    and "fst ` set (run_samples (fst (aggregate w test resubmit found))) =
           basename ` set (select_samples test found)"
proof -
  let ?fproc = "select_samples test found"
  let ?A = "aggregate w test resubmit found"
  have a: "?A = sample_loop w resubmit ?fproc \<lparr>run_samples = init_samples ?fproc, events = []\<rparr>"
    using assms by (rule aggregate_ok)
  have "snd (sample_loop w resubmit ?fproc \<lparr>run_samples = init_samples ?fproc, events = []\<rparr>) = None"
    using assms a by simp
  then have "polled (events (fst (sample_loop w resubmit ?fproc
        \<lparr>run_samples = init_samples ?fproc, events = []\<rparr>))) =
      polled (events \<lparr>run_samples = init_samples ?fproc, events = []\<rparr>) @ ?fproc"
    by (rule sample_loop_polled)
  then show "polled (events (fst ?A)) = ?fproc" using a by simp
  have "fst ` set (run_samples (fst (sample_loop w resubmit ?fproc
        \<lparr>run_samples = init_samples ?fproc, events = []\<rparr>))) =
      fst ` set (run_samples \<lparr>run_samples = init_samples ?fproc, events = []\<rparr>)"
    by (rule sample_loop_dom)
  then show "fst ` set (run_samples (fst ?A)) = basename ` set ?fproc"
    using a by (simp add: init_samples_keys)
qed

lemma sample_rows_join:
  "sample_rows ops force sd names page =
     (case join_rows (map (row_of ops force sd) names) of
        Inl e \<Rightarrow> Inl e
      | Inr rows \<Rightarrow> Inr (page @ rows))"
proof (induction names arbitrary: page)
  case Nil
  then show ?case by simp
next
  case (Cons name names)
  show ?case
  proof (cases "map_of sd name")
    case None
    then show ?thesis by (simp add: row_of_def)
  next
    case (Some r)
    show ?thesis
    proof (cases "sample_row ops force name r")
      case (Inl e)
      then show ?thesis using Some by (simp add: row_of_def)
    next
      case (Inr row)
      then show ?thesis
        using Some Cons.IH [of "page @ row"]
        by (simp add: row_of_def split: sum.splits)
    qed
  qed
qed

lemma render_page_rows:
  "render_page ops now d force =
     (case join_rows (map (row_of ops force (samples d))
                        (sort_key str_lower (map fst (samples d)))) of
        Inl e \<Rightarrow> Inl e
      | Inr rows \<Rightarrow> Inr (page_header now (meta d) @ rows @ page_footer))"
  unfolding render_page_def sample_rows_join sorted_samples_def page_header_def page_footer_def
  by (simp split: sum.splits)

lemma web_rows:
  "web ops now d webpath force =
     (case join_rows (map (row_of ops force (samples d))
                        (sort_key str_lower (map fst (samples d)))) of
        Inl e \<Rightarrow> (Some e, webpath\<lparr>dir_exists := True\<rparr>)
      | Inr rows \<Rightarrow>
          (None, webpath\<lparr>dir_exists := True,
                          index_html := Some (page_header now (meta d) @ rows @ page_footer)\<rparr>))"
  unfolding web_def render_page_rows
  by (simp split: sum.splits)

text \<open>
  Claim C6, as the code has it. The main section processes the sample directories in
  the sorted order of their full paths (of the first three in test mode): what it has
  processed when it ends or raises is an initial part of this sorted list, and all of
  it when no exception is raised. The keys of the data it then hands to the renderer
  are the base names of these paths. The renderer writes the rows of the samples, or
  raises the exception of the first row that fails, in the order of the keys sorted
  by their lower-case forms, keys with the same lower-case form staying in the order of
  the mapping. The two sorts are independent, and their keys differ: the full path as
  it is, and the lower-case form of the key of the mapping.
\<close>

theorem processing_orders:
  "(\<exists>n. polled (events (fst (aggregate w test resubmit found))) =
          take n (if test then take 3 (sort found) else sort found))
   \<and> (snd (aggregate w test resubmit found) = None \<longrightarrow>
        polled (events (fst (aggregate w test resubmit found))) =
          (if test then take 3 (sort found) else sort found)
        \<and> fst ` set (run_samples (fst (aggregate w test resubmit found))) =
            basename ` set (if test then take 3 (sort found) else sort found))
   \<and> sorted (if test then take 3 (sort found) else sort found)
   \<and> web ops now d webpath force =
       (case join_rows (map (row_of ops force (samples d))
                          (sort_key str_lower (map fst (samples d)))) of
          Inl e \<Rightarrow> (Some e, webpath\<lparr>dir_exists := True\<rparr>)
        | Inr rows \<Rightarrow>
            (None, webpath\<lparr>dir_exists := True,
                            index_html := Some (page_header now (meta d) @ rows @ page_footer)\<rparr>))
   \<and> sorted (map str_lower (sort_key str_lower (map fst (samples d))))
   \<and> set (sort_key str_lower (map fst (samples d))) = fst ` set (samples d)
   \<and> length (sort_key str_lower (map fst (samples d))) = length (samples d)
   \<and> (\<forall>k. filter (\<lambda>name. str_lower name = k) (sort_key str_lower (map fst (samples d))) =
            filter (\<lambda>name. str_lower name = k) (map fst (samples d)))"
proof -
  have c1: "\<exists>n. polled (events (fst (aggregate w test resubmit found))) =
          take n (if test then take 3 (sort found) else sort found)"
    using aggregate_polled_prefix [of w test resubmit found]
    by (simp only: select_samples_eq)
  have c2: "snd (aggregate w test resubmit found) = None \<longrightarrow>
        polled (events (fst (aggregate w test resubmit found))) =
          (if test then take 3 (sort found) else sort found)
        \<and> fst ` set (run_samples (fst (aggregate w test resubmit found))) =
            basename ` set (if test then take 3 (sort found) else sort found)"
    using aggregate_polled_all [of w test resubmit found]
    by (simp only: select_samples_eq) blast
  have c3: "sorted (if test then take 3 (sort found) else sort found)"
    by (simp add: sorted_wrt_take)
  have c5: "sorted (map str_lower (sort_key str_lower (map fst (samples d))))"
    by simp
  have c6: "set (sort_key str_lower (map fst (samples d))) = fst ` set (samples d)"
    by simp
  have c7: "length (sort_key str_lower (map fst (samples d))) = length (samples d)"
    by simp
  have c8: "\<forall>k. filter (\<lambda>name. str_lower name = k) (sort_key str_lower (map fst (samples d))) =
            filter (\<lambda>name. str_lower name = k) (map fst (samples d))"
    by (simp add: sort_key_stable)
  from c1 c2 c3 web_rows [of ops now d webpath force] c5 c6 c7 c8
  show ?thesis by (intro conjI)
qed

theorem processing_orders_witness:
  \<open>snd (aggregate
          \<lparr>read_log = (\<lambda>f k. [''Jobs status: finished 100%'']),
           results_exist = (\<lambda>f. False), script_exists = (\<lambda>f. True)\<rparr>
          False False [''/p/crab_logs/b'', ''/p/crab_logs/C'', ''/p/crab_logs/a'']) = None
   \<and> polled (events (fst (aggregate
          \<lparr>read_log = (\<lambda>f k. [''Jobs status: finished 100%'']),
           results_exist = (\<lambda>f. False), script_exists = (\<lambda>f. True)\<rparr>
          False False [''/p/crab_logs/b'', ''/p/crab_logs/C'', ''/p/crab_logs/a'']))) =
       [''/p/crab_logs/C'', ''/p/crab_logs/a'', ''/p/crab_logs/b'']
   \<and> map fst (run_samples (fst (aggregate
          \<lparr>read_log = (\<lambda>f k. [''Jobs status: finished 100%'']),
           results_exist = (\<lambda>f. False), script_exists = (\<lambda>f. True)\<rparr>
          False False [''/p/crab_logs/b'', ''/p/crab_logs/C'', ''/p/crab_logs/a'']))) =
       [''C'', ''a'', ''b'']
   \<and> web small_float_ops ''03/11/2026 22:07:00''
        \<lparr>meta = None,
         samples = run_samples (fst (aggregate
          \<lparr>read_log = (\<lambda>f k. [''Jobs status: finished 100%'']),
           results_exist = (\<lambda>f. False), script_exists = (\<lambda>f. True)\<rparr>
          False False [''/p/crab_logs/b'', ''/p/crab_logs/C'', ''/p/crab_logs/a'']))\<rparr>
        \<lparr>dir_exists = False, index_html = None\<rparr> False =
       (None,
        \<lparr>dir_exists = True,
         index_html = Some (page_header ''03/11/2026 22:07:00'' None
           @ concat (map (\<lambda>name.
               ''<table class="divide" cellpadding="5px" cellspacing="0">'' @ nl
               @ ''<tr>'' @ nl
               @ ''<td style="width:20%">'' @ name @ ''</td>''
               @ ''<td style="width:20%">-</td>''
               @ ''<td> <div class="progress-container">''
               @ ''<div class="progress-bar" style="left: 0%; width: 100.0%; background-color: lightgreen"></div>''
               @ ''<div class="progress-text">finished: 100%</div></div></td>''
               @ ''<td style="width:20%"> <a href="" target="_blank">Grafana</a> </td>'' @ nl
               @ ''</tr>'' @ nl) [''a'', ''b'', ''C''])
           @ page_footer)\<rparr>)\<close>
proof -
  let ?w = "\<lparr>read_log = (\<lambda>f k. [''Jobs status: finished 100%'']),
           results_exist = (\<lambda>f. False), script_exists = (\<lambda>f. True)\<rparr>"
  let ?found = "[''/p/crab_logs/b'', ''/p/crab_logs/C'', ''/p/crab_logs/a'']"
  let ?A = "aggregate ?w False False ?found"
  have h: "snd ?A = None" by code_simp
  have srt: "sort ?found = [''/p/crab_logs/C'', ''/p/crab_logs/a'', ''/p/crab_logs/b'']"
    by code_simp
  from processing_orders [of ?w False False ?found small_float_ops "[]"
      "\<lparr>meta = None, samples = []\<rparr>" "\<lparr>dir_exists = False, index_html = None\<rparr>" False]
  have "snd ?A = None \<longrightarrow>
      polled (events (fst ?A)) = (if False then take 3 (sort ?found) else sort ?found)
      \<and> fst ` set (run_samples (fst ?A)) =
          basename ` set (if False then take 3 (sort ?found) else sort ?found)"
    by (elim conjE)
  with h srt have c2: "polled (events (fst ?A)) =
      [''/p/crab_logs/C'', ''/p/crab_logs/a'', ''/p/crab_logs/b'']"
    by simp
  have c3: "map fst (run_samples (fst ?A)) = [''C'', ''a'', ''b'']"
    by code_simp
  have c4: \<open>web small_float_ops ''03/11/2026 22:07:00''
        \<lparr>meta = None, samples = run_samples (fst ?A)\<rparr>
        \<lparr>dir_exists = False, index_html = None\<rparr> False =
       (None,
        \<lparr>dir_exists = True,
         index_html = Some (page_header ''03/11/2026 22:07:00'' None
           @ concat (map (\<lambda>name.
               ''<table class="divide" cellpadding="5px" cellspacing="0">'' @ nl
               @ ''<tr>'' @ nl
               @ ''<td style="width:20%">'' @ name @ ''</td>''
               @ ''<td style="width:20%">-</td>''
               @ ''<td> <div class="progress-container">''
               @ ''<div class="progress-bar" style="left: 0%; width: 100.0%; background-color: lightgreen"></div>''
               @ ''<div class="progress-text">finished: 100%</div></div></td>''
               @ ''<td style="width:20%"> <a href="" target="_blank">Grafana</a> </td>'' @ nl
               @ ''</tr>'' @ nl) [''a'', ''b'', ''C''])
           @ page_footer)\<rparr>)\<close>
    by code_simp
  from h c2 c3 c4 show ?thesis by (intro conjI)
qed

text \<open>
  The claim as worded fails: for the directories \<open>/b/crab_logs/X\<close> and
  \<open>/a/crab_logs/y\<close> the renderer handles \<open>X\<close> before \<open>y\<close>, whereas a
  case-insensitive sort on the full paths puts \<open>/a/crab_logs/y\<close> first.
\<close>

theorem processing_orders_counterexample:
  "polled (events (fst (aggregate
          \<lparr>read_log = (\<lambda>f k. [''Jobs status: running 50.0%'']),
           results_exist = (\<lambda>f. False), script_exists = (\<lambda>f. True)\<rparr>
          False False [''/b/crab_logs/X'', ''/a/crab_logs/y'']))) =
     [''/a/crab_logs/y'', ''/b/crab_logs/X'']
   \<and> sorted_samples (run_samples (fst (aggregate
          \<lparr>read_log = (\<lambda>f k. [''Jobs status: running 50.0%'']),
           results_exist = (\<lambda>f. False), script_exists = (\<lambda>f. True)\<rparr>
          False False [''/b/crab_logs/X'', ''/a/crab_logs/y'']))) = [''X'', ''y'']
   \<and> map basename (sort_key str_lower [''/b/crab_logs/X'', ''/a/crab_logs/y'']) = [''y'', ''X'']"
  by code_simp

end
